theory Spec2Isabelle
  imports Main
begin

section \<open>Python values used by convert-md.py\<close>

text \<open>
  A Python \<open>str\<close> is a sequence of Unicode code points and a \<open>bytes\<close> object a sequence
  of octets; both are lists of naturals here. A \<open>pathlib.Path\<close> is represented by its
  string form \<open>str(p)\<close>, which is what \<open>len(str(x))\<close> in the cleanup measures.
\<close>

type_synonym str = "nat list"
type_synonym bytes = "nat list"
type_synonym path = "nat list"

abbreviation (input) ascii :: "string \<Rightarrow> str" where
  "ascii s \<equiv> map of_char s"

text \<open>
  The exceptions that can leave the functions of the script. \<open>CalledProcessError\<close> carries
  the captured stderr; \<open>FileNotFoundError\<close> and \<open>PermissionError\<close> are \<open>OSError\<close>s;
  \<open>RuntimeError\<close> is what \<open>Path.resolve\<close> raises on a loop of symbolic links.
\<close>

datatype exn =
    CalledProcessError bytes
  | OSError
  | UnicodeDecodeError
  | ValueError
  | IndexError
  | RuntimeError

subsection \<open>String methods\<close>

text \<open>\<open>s.startswith(p)\<close>\<close>

fun startswith :: "str \<Rightarrow> str \<Rightarrow> bool" where
  "startswith s [] = True"
| "startswith [] (p # ps) = False"
| "startswith (c # cs) (p # ps) = (c = p \<and> startswith cs ps)"

text \<open>\<open>p in s\<close>\<close>

fun contains :: "str \<Rightarrow> str \<Rightarrow> bool" where
  "contains [] p = (p = [])"
| "contains (c # cs) p = (startswith (c # cs) p \<or> contains cs p)"

text \<open>
  \<open>str.isspace\<close> of one code point; \<open>strip()\<close>, \<open>split()\<close> and the regular expression
  class \<open>\s\<close> all use this set.
\<close>

definition isspace :: "nat \<Rightarrow> bool" where
  "isspace c = ((9 \<le> c \<and> c \<le> 13) \<or> (28 \<le> c \<and> c \<le> 32) \<or> c = 133 \<or> c = 160
     \<or> c = 5760 \<or> (8192 \<le> c \<and> c \<le> 8202) \<or> c = 8232 \<or> c = 8233 \<or> c = 8239
     \<or> c = 8287 \<or> c = 12288)"

definition lstrip :: "str \<Rightarrow> str" where
  "lstrip s = dropWhile isspace s"

definition rstrip :: "str \<Rightarrow> str" where
  "rstrip s = rev (dropWhile isspace (rev s))"

definition strip :: "str \<Rightarrow> str" where
  "strip s = rstrip (lstrip s)"

text \<open>\<open>s.replace(old, new)\<close>: the occurrences of \<open>old\<close> are found left to right and do not overlap.\<close>

fun replace_from :: "str \<Rightarrow> str \<Rightarrow> str \<Rightarrow> str" where
  "replace_from old new [] = []"
| "replace_from old new (c # cs) =
     (if startswith (c # cs) old
      then new @ replace_from old new (drop (length old - 1) cs)
      else c # replace_from old new cs)"

definition py_replace :: "str \<Rightarrow> str \<Rightarrow> str \<Rightarrow> str" where
  "py_replace s old new =
     (if old = [] then new @ concat (map (\<lambda>c. c # new) s) else replace_from old new s)"

section \<open>The Path/URL Normaliser\<close>

text \<open>
  What \<open>to_uri_if_exists\<close> asks of the standard library and of the file system. None of
  it is code of the repository, so it is a parameter of the model:
  \<^item> \<open>uword c\<close>: \<open>chr(c).isalnum()\<close> for a code point \<open>c \<ge> 128\<close> (the Unicode table behind
    the regular expression class \<open>\w\<close>);
  \<^item> \<open>urlsplit_path u\<close>: \<open>urllib.parse.urlsplit(u).path\<close>, \<open>None\<close> when \<open>urlsplit\<close> raises;
  \<^item> \<open>unquote u\<close>: \<open>urllib.parse.unquote(u)\<close>;
  \<^item> \<open>path_resolve u\<close>: \<open>Path(u).resolve()\<close>, and \<open>join_resolve b u\<close>: \<open>(b / u).resolve()\<close>;
    both raise \<open>ValueError\<close> on an embedded null character, \<open>RuntimeError\<close> on a loop of
    symbolic links and \<open>OSError\<close> when the system refuses the path;
  \<^item> \<open>is_file p\<close>: \<open>p.is_file()\<close>, \<open>None\<close> when it raises. It returns \<open>False\<close> when the
    system reports that the path does not exist, that a component is not a directory or
    that there is a loop of symbolic links, and on an embedded null character; every
    other error of the system (a name that is too long, a directory that may not be
    searched) leaves it as \<open>OSError\<close>;
  \<^item> \<open>uri_tail p\<close>: what follows \<open>file://\<close> in \<open>p.as_uri()\<close> for an absolute path \<open>p\<close>.
\<close>

record env =
  uword :: "nat \<Rightarrow> bool"
  urlsplit_path :: "str \<Rightarrow> str option"
  unquote :: "str \<Rightarrow> str"
  path_resolve :: "str \<Rightarrow> exn + path"
  join_resolve :: "path \<Rightarrow> str \<Rightarrow> exn + path"
  is_file :: "path \<Rightarrow> bool option"
  uri_tail :: "path \<Rightarrow> str"

definition as_uri :: "env \<Rightarrow> path \<Rightarrow> str" where
  "as_uri E p = ascii ''file://'' @ uri_tail E p"

definition should_keep :: "str \<Rightarrow> bool" where
  "should_keep url =
     (let u = strip url in
        u = []
      \<or> startswith u (ascii ''#'')
      \<or> startswith u (ascii ''http://'')
      \<or> startswith u (ascii ''https://'')
      \<or> startswith u (ascii ''data:'')
      \<or> startswith u (ascii ''mailto:'')
      \<or> startswith u (ascii ''file://''))"

definition normalize_local_path :: "env \<Rightarrow> str \<Rightarrow> str" where
  "normalize_local_path E url =
     (let u = strip url;
          u = (case urlsplit_path E u of Some p \<Rightarrow> p | None \<Rightarrow> u);
          u = unquote E u
      in py_replace u [92] [47])"

text \<open>\<open>re.match(r"^[a-zA-Z]:/", u)\<close>\<close>

definition drive_letter_abs :: "str \<Rightarrow> bool" where
  "drive_letter_abs u =
     (case u of
        a # b # c # _ \<Rightarrow> ((65 \<le> a \<and> a \<le> 90) \<or> (97 \<le> a \<and> a \<le> 122)) \<and> b = 58 \<and> c = 47
      | _ \<Rightarrow> False)"

text \<open>\<open>u.lstrip("/")\<close>\<close>

definition lstrip_slash :: "str \<Rightarrow> str" where
  "lstrip_slash u = dropWhile (\<lambda>c. c = 47) u"

definition to_uri_if_exists :: "env \<Rightarrow> path \<Rightarrow> str \<Rightarrow> exn + str" where
  "to_uri_if_exists E base_dir url =
     (if should_keep url then Inr url
      else
        let u = normalize_local_path E url in
        if drive_letter_abs u then
          (case path_resolve E u of Inl e \<Rightarrow> Inl e | Inr p \<Rightarrow> Inr (as_uri E p))
        else
          (case join_resolve E base_dir u of
             Inl e \<Rightarrow> Inl e
           | Inr candidate \<Rightarrow>
               (case is_file E candidate of
                  None \<Rightarrow> Inl OSError
                | Some True \<Rightarrow> Inr (as_uri E candidate)
                | Some False \<Rightarrow>
                    if startswith u (ascii ''/'') then
                      (case join_resolve E base_dir (lstrip_slash u) of
                         Inl e \<Rightarrow> Inl e
                       | Inr candidate2 \<Rightarrow>
                           (case is_file E candidate2 of
                              None \<Rightarrow> Inl OSError
                            | Some True \<Rightarrow> Inr (as_uri E candidate2)
                            | Some False \<Rightarrow> Inr url))
                    else Inr url)))"

text \<open>
  A small environment for concrete runs: a POSIX machine, with working directory \<open>/\<close>,
  whose only files are \<open>/doc/x\<close> and \<open>/doc/a.png\<close>. Its \<open>urlsplit_path\<close> drops a leading
  \<open>file://\<close> and cuts the reference at the first \<open>?\<close> or \<open>#\<close>, and its \<open>unquote\<close> is the
  identity, which is what \<open>urllib\<close> returns for the references used in the concrete runs
  below (no other scheme, no network location, no percent escape). Resolving a path with
  an embedded null character raises \<open>ValueError\<close>, and \<open>is_file\<close> raises \<open>OSError\<close> on a path
  with a name of more than 255 bytes. Its \<open>uri_tail\<close> is the percent-encoding of \<open>as_uri\<close>:
  the letters and digits of ASCII and \<open>_.-~/\<close> stand for themselves, every other character
  is written as the bytes of its UTF-8 encoding, each as \<open>%\<close> and two hexadecimal digits.
\<close>

definition utf8_encode :: "nat \<Rightarrow> bytes" where
  "utf8_encode c =
     (if c < 128 then [c]
      else if c < 2048 then [192 + c div 64, 128 + c mod 64]
      else if c < 65536 then [224 + c div 4096, 128 + (c div 64) mod 64, 128 + c mod 64]
      else [240 + c div 262144, 128 + (c div 4096) mod 64, 128 + (c div 64) mod 64,
            128 + c mod 64])"

definition hex_digit :: "nat \<Rightarrow> nat" where
  "hex_digit n = (let d = n mod 16 in if d < 10 then 48 + d else 55 + d)"

definition percent :: "nat \<Rightarrow> str" where
  "percent b = [37, hex_digit (b div 16), hex_digit b]"

definition unreserved :: "nat \<Rightarrow> bool" where
  "unreserved c =
     ((48 \<le> c \<and> c \<le> 57) \<or> (65 \<le> c \<and> c \<le> 90) \<or> (97 \<le> c \<and> c \<le> 122)
      \<or> c = 95 \<or> c = 46 \<or> c = 45 \<or> c = 126 \<or> c = 47)"

definition posix_quote :: "path \<Rightarrow> str" where
  "posix_quote p =
     concat (map (\<lambda>c. if unreserved c then [c] else concat (map percent (utf8_encode c))) p)"

text \<open>\<open>s.split(sep)\<close> for a one-character separator: empty pieces are kept.\<close>

fun split_on :: "nat \<Rightarrow> str \<Rightarrow> str list" where
  "split_on sep [] = [[]]"
| "split_on sep (c # cs) =
     (if c = sep then [] # split_on sep cs
      else (case split_on sep cs of
              [] \<Rightarrow> [[c]]
            | x # xs \<Rightarrow> (c # x) # xs))"

definition name_too_long :: "path \<Rightarrow> bool" where
  "name_too_long p =
     list_ex (\<lambda>name. drop 255 (concat (map utf8_encode name)) \<noteq> []) (split_on 47 p)"

definition doc_env :: env where
  "doc_env = \<lparr>
     uword = (\<lambda>c. False),
     urlsplit_path = (\<lambda>u. Some (takeWhile (\<lambda>c. c \<noteq> 63 \<and> c \<noteq> 35)
                                (if startswith u (ascii ''file://'') then drop 7 u else u))),
     unquote = (\<lambda>u. u),
     path_resolve = (\<lambda>u. if 0 \<in> set u then Inl ValueError
                         else Inr (if startswith u (ascii ''/'') then u else ascii ''/'' @ u)),
     join_resolve = (\<lambda>b u. if 0 \<in> set u then Inl ValueError
                           else Inr (if startswith u (ascii ''/'') then u else b @ ascii ''/'' @ u)),
     is_file = (\<lambda>p. if name_too_long p then None
                    else Some (p = ascii ''/doc/x'' \<or> p = ascii ''/doc/a.png'')),
     uri_tail = posix_quote \<rparr>"


section \<open>The HTML Rewriter\<close>

subsection \<open>The attribute pattern\<close>

text \<open>
  The regular expression class \<open>\w\<close> of a \<open>str\<close> pattern: \<open>[a-zA-Z0-9_]\<close> and every
  alphanumeric code point outside ASCII.
\<close>

definition is_word :: "env \<Rightarrow> nat \<Rightarrow> bool" where
  "is_word E c =
     (if c < 128
      then (48 \<le> c \<and> c \<le> 57) \<or> (65 \<le> c \<and> c \<le> 90) \<or> c = 95 \<or> (97 \<le> c \<and> c \<le> 122)
      else uword E c)"

text \<open>
  \<open>\b\<close> at a position: the character before it (\<open>None\<close> at the start of the text) and
  the character at it (none at the end) are not both word characters and not both
  non-word characters.
\<close>

definition word_boundary :: "env \<Rightarrow> nat option \<Rightarrow> str \<Rightarrow> bool" where
  "word_boundary E prev s =
     ((case prev of None \<Rightarrow> False | Some c \<Rightarrow> is_word E c)
      \<noteq> (case s of [] \<Rightarrow> False | c # _ \<Rightarrow> is_word E c))"

text \<open>
  A literal of the pattern (written in lower case) against a character of the text under
  \<open>re.IGNORECASE\<close>: besides the two ASCII cases, \<open>s\<close> matches U+017F, \<open>i\<close> matches U+0130 and
  U+0131, and \<open>k\<close> matches U+212A.
\<close>

definition ci_eq :: "nat \<Rightarrow> nat \<Rightarrow> bool" where
  "ci_eq p c =
     (c = p \<or> (97 \<le> p \<and> p \<le> 122 \<and> c + 32 = p)
      \<or> (p = 115 \<and> c = 383) \<or> (p = 105 \<and> (c = 304 \<or> c = 305)) \<or> (p = 107 \<and> c = 8490))"

fun ci_startswith :: "str \<Rightarrow> str \<Rightarrow> bool" where
  "ci_startswith s [] = True"
| "ci_startswith [] (p # ps) = False"
| "ci_startswith (c # cs) (p # ps) = (ci_eq p c \<and> ci_startswith cs ps)"

text \<open>
  One attempt of \<open>(\bNAME=)("|')(.*?)(\2)\<close> at a position of the text, where \<open>prev\<close> is the
  character before the position: the four results are group 1, the quote of group 2,
  group 3 and the text after the match. The lazy \<open>.*?\<close> stops at the first occurrence
  of the opening quote, and \<open>.\<close> does not match a line feed.
\<close>

definition match_attr_name ::
  "env \<Rightarrow> str \<Rightarrow> nat option \<Rightarrow> str \<Rightarrow> (str \<times> nat \<times> str \<times> str) option" where
  "match_attr_name E name prev s =
     (let pat = name @ ascii ''='' in
      if word_boundary E prev s \<and> ci_startswith s pat then
        (case drop (length pat) s of
           [] \<Rightarrow> None
         | q # body \<Rightarrow>
             if q = 34 \<or> q = 39 then
               (let v = takeWhile (\<lambda>c. c \<noteq> q \<and> c \<noteq> 10) body in
                case drop (length v) body of
                  [] \<Rightarrow> None
                | c # rest \<Rightarrow> if c = q then Some (take (length pat) s, q, v, rest) else None)
             else None)
      else None)"

text \<open>The alternation \<open>(?:src|href)\<close>: the names are tried in order.\<close>

fun match_attr ::
  "env \<Rightarrow> str list \<Rightarrow> nat option \<Rightarrow> str \<Rightarrow> (str \<times> nat \<times> str \<times> str) option" where
  "match_attr E [] prev s = None"
| "match_attr E (n # ns) prev s =
     (case match_attr_name E n prev s of
        Some m \<Rightarrow> Some m
      | None \<Rightarrow> match_attr E ns prev s)"

lemma match_attr_name_shorter:
  "match_attr_name E name prev s = Some (p, q, v, rest) \<Longrightarrow> length rest < length s"
proof -
  assume a: "match_attr_name E name prev s = Some (p, q, v, rest)"
  then obtain body where b: "drop (length (name @ ascii ''='')) s = q # body"
     and r: "drop (length (takeWhile (\<lambda>c. c \<noteq> q \<and> c \<noteq> 10) body)) body = q # rest"
    by (auto simp: match_attr_name_def Let_def split: if_splits list.splits)
  have "length (q # rest) \<le> length body" 
    by (metis r length_drop diff_le_self)
  moreover have "length (q # body) \<le> length s"
    by (metis b length_drop diff_le_self)
  ultimately show ?thesis by simp
qed

lemma match_attr_shorter:
  "match_attr E names prev s = Some (p, q, v, rest) \<Longrightarrow> length rest < length s"
  by (induction names) (auto split: option.splits dest: match_attr_name_shorter)

text \<open>
  \<open>pattern.sub(repl, html)\<close>: the text is scanned from the left; a match is replaced by
  what \<open>repl\<close> returns for its groups and the scan goes on after the match; an exception
  raised by \<open>repl\<close> leaves \<open>sub\<close>.
\<close>

function sub_attr ::
  "env \<Rightarrow> str list \<Rightarrow> (str \<Rightarrow> nat \<Rightarrow> str \<Rightarrow> exn + str) \<Rightarrow> nat option \<Rightarrow> str \<Rightarrow> exn + str" where
  "sub_attr E names repl prev [] = Inr []"
| "sub_attr E names repl prev (c # cs) =
     (case match_attr E names prev (c # cs) of
        None \<Rightarrow>
          (case sub_attr E names repl (Some c) cs of
             Inl e \<Rightarrow> Inl e
           | Inr out \<Rightarrow> Inr (c # out))
      | Some (pre, q, v, rest) \<Rightarrow>
          (case repl pre q v of
             Inl e \<Rightarrow> Inl e
           | Inr new \<Rightarrow>
               (case sub_attr E names repl (Some q) rest of
                  Inl e \<Rightarrow> Inl e
                | Inr out \<Rightarrow> Inr (new @ out))))"
  by pat_completeness auto
termination
  by (relation "measure (\<lambda>(E, names, repl, prev, s). length s)")
     (auto dest: match_attr_shorter)

definition replace_attr :: "env \<Rightarrow> path \<Rightarrow> str \<Rightarrow> nat \<Rightarrow> str \<Rightarrow> exn + str" where
  "replace_attr E base_dir pre q url =
     (case to_uri_if_exists E base_dir url of
        Inl e \<Rightarrow> Inl e
      | Inr new_url \<Rightarrow> Inr (pre @ [q] @ new_url @ [q]))"

subsection \<open>\<open>srcset\<close>\<close>

text \<open>\<open>s.split()\<close>: the maximal runs of characters that are not whitespace.\<close>

function split_ws :: "str \<Rightarrow> str list" where
  "split_ws s =
     (case dropWhile isspace s of
        [] \<Rightarrow> []
      | c # cs \<Rightarrow>
          (c # takeWhile (\<lambda>d. \<not> isspace d) cs) # split_ws (dropWhile (\<lambda>d. \<not> isspace d) cs))"
  by pat_completeness auto
termination
proof (relation "measure length", goal_cases)
  case 1
  show ?case by simp
next
  case (2 s c cs)
  have "length (dropWhile (\<lambda>d. \<not> isspace d) cs) \<le> length cs"
    by (rule length_dropWhile_le)
  moreover have "length (c # cs) \<le> length s"
    by (metis "2" length_dropWhile_le)
  ultimately show ?case by simp
qed

declare split_ws.simps [simp del]

text \<open>\<open>sep.join(parts)\<close>\<close>

fun join :: "str \<Rightarrow> str list \<Rightarrow> str" where
  "join sep [] = []"
| "join sep [x] = x"
| "join sep (x # y # ys) = x @ sep @ join sep (y # ys)"

text \<open>
  The loop of \<open>replace_srcset\<close> over the comma-separated items. \<open>tokens[0]\<close> raises
  \<open>IndexError\<close> on an empty token list.
\<close>

fun srcset_parts :: "env \<Rightarrow> path \<Rightarrow> str list \<Rightarrow> exn + str list" where
  "srcset_parts E base_dir [] = Inr []"
| "srcset_parts E base_dir (item # items) =
     (let item' = strip item in
      if item' = [] then srcset_parts E base_dir items
      else
        (case split_ws item' of
           [] \<Rightarrow> Inl IndexError
         | url # tokens \<Rightarrow>
             (let rest = join (ascii '' '') tokens in
              case to_uri_if_exists E base_dir url of
                Inl e \<Rightarrow> Inl e
              | Inr new_url \<Rightarrow>
                  (case srcset_parts E base_dir items of
                     Inl e \<Rightarrow> Inl e
                   | Inr parts \<Rightarrow>
                       Inr (strip (new_url @ (if rest \<noteq> [] then ascii '' '' @ rest else []))
                            # parts)))))"

definition replace_srcset :: "env \<Rightarrow> path \<Rightarrow> str \<Rightarrow> nat \<Rightarrow> str \<Rightarrow> exn + str" where
  "replace_srcset E base_dir pre q v =
     (case srcset_parts E base_dir (split_on 44 v) of
        Inl e \<Rightarrow> Inl e
      | Inr parts \<Rightarrow> Inr (pre @ [q] @ join (ascii '', '') parts @ [q]))"

definition rewrite_local_urls_to_file_uri :: "env \<Rightarrow> str \<Rightarrow> path \<Rightarrow> exn + str" where
  "rewrite_local_urls_to_file_uri E html base_dir =
     (case sub_attr E [ascii ''src'', ascii ''href''] (replace_attr E base_dir) None html of
        Inl e \<Rightarrow> Inl e
      | Inr html' \<Rightarrow> sub_attr E [ascii ''srcset''] (replace_srcset E base_dir) None html')"


section \<open>The Sanitizer's text stage\<close>

text \<open>The five literal substitutions of \<open>sanitize_html_for_wkhtmltopdf\<close>, in order.\<close>

definition fixed_substitutions :: "str \<Rightarrow> str" where
  "fixed_substitutions html =
     (let html = py_replace html (ascii ''href='' @ [34, 34]) (ascii ''href='' @ [34, 35, 34]);
          html = py_replace html (ascii ''href='' @ [39, 39]) (ascii ''href='' @ [39, 35, 39]);
          html = py_replace html (ascii ''src='' @ [34, 34]) (ascii ''src='' @ [34, 35, 34]);
          html = py_replace html (ascii ''src='' @ [39, 39]) (ascii ''src='' @ [39, 35, 39])
      in py_replace html (ascii ''about:blank'') (ascii ''#''))"

subsection \<open>The transcoder's locator pattern\<close>

text \<open>
  \<open>file:///[^"'\s>]+?\.webp\<close> under \<open>re.IGNORECASE\<close>. After the first character of the
  class, the lazy repetition tries \<open>\.webp\<close> before it takes one more character.
\<close>

definition locator_char :: "nat \<Rightarrow> bool" where
  "locator_char c = (c \<noteq> 34 \<and> c \<noteq> 39 \<and> c \<noteq> 62 \<and> \<not> isspace c)"

fun webp_tail :: "str \<Rightarrow> (str \<times> str) option" where
  "webp_tail [] = None"
| "webp_tail (c # cs) =
     (if ci_startswith (c # cs) (ascii ''.webp'') then Some (take 5 (c # cs), drop 5 (c # cs))
      else if locator_char c then
        (case webp_tail cs of
           None \<Rightarrow> None
         | Some (m, rest) \<Rightarrow> Some (c # m, rest))
      else None)"

definition match_webp :: "str \<Rightarrow> (str \<times> str) option" where
  "match_webp s =
     (if ci_startswith s (ascii ''file:///'') then
        (case drop 8 s of
           [] \<Rightarrow> None
         | c # cs \<Rightarrow>
             if locator_char c then
               (case webp_tail cs of
                  None \<Rightarrow> None
                | Some (m, rest) \<Rightarrow> Some (take 8 s @ c # m, rest))
             else None)
      else None)"

lemma webp_tail_shorter: "webp_tail s = Some (m, rest) \<Longrightarrow> length rest < length s"
proof (induction s arbitrary: m rest)
  case Nil
  then show ?case by simp
next
  case (Cons c cs)
  show ?case
  proof (cases "ci_startswith (c # cs) (ascii ''.webp'')")
    case True
    with Cons.prems have "rest = drop 5 (c # cs)" by simp
    then show ?thesis by simp
  next
    case False
    with Cons.prems obtain m' where "webp_tail cs = Some (m', rest)"
      by (auto split: if_splits option.splits)
    from Cons.IH [OF this] show ?thesis by simp
  qed
qed

lemma match_webp_shorter: "match_webp s = Some (m, rest) \<Longrightarrow> length rest < length s"
proof -
  assume "match_webp s = Some (m, rest)"
  then obtain c cs m' where d: "drop 8 s = c # cs" and t: "webp_tail cs = Some (m', rest)"
    by (auto simp: match_webp_def split: if_splits list.splits option.splits)
  have "length (c # cs) \<le> length s"
    by (metis d length_drop diff_le_self)
  with webp_tail_shorter [OF t] show ?thesis by simp
qed

text \<open>\<open>pattern.findall(html)\<close>\<close>

function findall_webp :: "str \<Rightarrow> str list" where
  "findall_webp [] = []"
| "findall_webp (c # cs) =
     (case match_webp (c # cs) of
        None \<Rightarrow> findall_webp cs
      | Some (m, rest) \<Rightarrow> m # findall_webp rest)"
  by pat_completeness auto
termination
  by (relation "measure length") (auto dest: match_webp_shorter)

text \<open>\<open>list(dict.fromkeys(xs))\<close>: the first occurrence of every element, in order.\<close>

definition dedupe :: "'a list \<Rightarrow> 'a list" where
  "dedupe xs = rev (remdups (rev xs))"

subsection \<open>The diagnostic scan\<close>

text \<open>
  One attempt of \<open>\bsrc=("|')([^"']+)(\1)\<close> at a position: group 2 and the text after the
  match.
\<close>

definition img_src_at :: "env \<Rightarrow> nat option \<Rightarrow> str \<Rightarrow> (str \<times> str) option" where
  "img_src_at E prev s =
     (if word_boundary E prev s \<and> ci_startswith s (ascii ''src='') then
        (case drop 4 s of
           [] \<Rightarrow> None
         | q # body \<Rightarrow>
             if q = 34 \<or> q = 39 then
               (let v = takeWhile (\<lambda>c. c \<noteq> 34 \<and> c \<noteq> 39) body in
                case drop (length v) body of
                  [] \<Rightarrow> None
                | c # rest \<Rightarrow> if v \<noteq> [] \<and> c = q then Some (v, rest) else None)
             else None)
      else None)"

text \<open>The greedy \<open>[^>]*\<close> before it: the last position of the run where the rest matches.\<close>

fun img_src_scan :: "env \<Rightarrow> nat option \<Rightarrow> str \<Rightarrow> (str \<times> str) option" where
  "img_src_scan E prev [] = None"
| "img_src_scan E prev (c # cs) =
     (case (if c \<noteq> 62 then img_src_scan E (Some c) cs else None) of
        Some m \<Rightarrow> Some m
      | None \<Rightarrow> img_src_at E prev (c # cs))"

text \<open>\<open><img\b[^>]*\bsrc=("|')([^"']+)(\1)\<close> at a position.\<close>

definition match_img :: "env \<Rightarrow> str \<Rightarrow> (str \<times> str) option" where
  "match_img E s =
     (if ci_startswith s (ascii ''<img'') \<and> word_boundary E (Some (s ! 3)) (drop 4 s)
      then img_src_scan E (Some (s ! 3)) (drop 4 s)
      else None)"

lemma img_src_at_shorter: "img_src_at E prev s = Some (v, rest) \<Longrightarrow> length rest < length s"
proof -
  assume "img_src_at E prev s = Some (v, rest)"
  then obtain q body where b: "drop 4 s = q # body"
     and r: "drop (length (takeWhile (\<lambda>c. c \<noteq> 34 \<and> c \<noteq> 39) body)) body = q # rest"
    by (auto simp: img_src_at_def Let_def split: if_splits list.splits)
  have "length (q # rest) \<le> length body"
    by (metis r length_drop diff_le_self)
  moreover have "length (q # body) \<le> length s"
    by (metis b length_drop diff_le_self)
  ultimately show ?thesis by simp
qed

lemma img_src_scan_shorter:
  "img_src_scan E prev s = Some (v, rest) \<Longrightarrow> length rest < length s"
proof (induction s arbitrary: prev)
  case Nil
  then show ?case by simp
next
  case (Cons c cs)
  show ?case
  proof (cases "if c \<noteq> 62 then img_src_scan E (Some c) cs else None")
    case None
    with Cons.prems have "img_src_at E prev (c # cs) = Some (v, rest)" by simp
    then show ?thesis by (rule img_src_at_shorter)
  next
    case (Some m)
    with Cons.prems have "img_src_scan E (Some c) cs = Some (v, rest)"
      by (simp split: if_splits)
    from Cons.IH [OF this] show ?thesis by simp
  qed
qed

lemma match_img_shorter: "match_img E s = Some (v, rest) \<Longrightarrow> length rest < length s"
proof -
  assume "match_img E s = Some (v, rest)"
  then have "img_src_scan E (Some (s ! 3)) (drop 4 s) = Some (v, rest)"
    by (simp add: match_img_def split: if_splits)
  from img_src_scan_shorter [OF this] show ?thesis by simp
qed

text \<open>The values of group 2 over \<open>re.finditer\<close>.\<close>

function finditer_img :: "env \<Rightarrow> str \<Rightarrow> str list" where
  "finditer_img E [] = []"
| "finditer_img E (c # cs) =
     (case match_img E (c # cs) of
        None \<Rightarrow> finditer_img E cs
      | Some (v, rest) \<Rightarrow> v # finditer_img E rest)"
  by pat_completeness auto
termination
  by (relation "measure (\<lambda>(E, s). length s)") (auto dest: match_img_shorter)

text \<open>
  The body of the diagnostic loop for one \<open>src\<close>. It only prints, so all that is kept
  of it is the exception that \<open>resolve()\<close> or \<open>is_file()\<close> may raise.
\<close>

definition debug_check :: "env \<Rightarrow> path \<Rightarrow> str \<Rightarrow> exn option" where
  "debug_check E parent src =
     (if startswith src (ascii ''http://'') \<or> startswith src (ascii ''https://'')
         \<or> startswith src (ascii ''data:'') \<or> startswith src (ascii ''file://'')
      then None
      else
        let u = normalize_local_path E src in
        if u = [] then None
        else
          (case join_resolve E parent u of
             Inl e \<Rightarrow> Some e
           | Inr p \<Rightarrow>
               (case is_file E p of
                  None \<Rightarrow> Some OSError
                | Some True \<Rightarrow> None
                | Some False \<Rightarrow>
                    if startswith u (ascii ''/'') then
                      (case join_resolve E parent (lstrip_slash u) of
                         Inl e \<Rightarrow> Some e
                       | Inr p2 \<Rightarrow>
                           (case is_file E p2 of None \<Rightarrow> Some OSError | Some b \<Rightarrow> None))
                    else None)))"

fun debug_loop :: "env \<Rightarrow> path \<Rightarrow> str list \<Rightarrow> exn option" where
  "debug_loop E parent [] = None"
| "debug_loop E parent (src # srcs) =
     (case debug_check E parent src of
        Some e \<Rightarrow> Some e
      | None \<Rightarrow> debug_loop E parent srcs)"

definition debug_scan :: "env \<Rightarrow> path \<Rightarrow> str \<Rightarrow> exn option" where
  "debug_scan E parent html = debug_loop E parent (finditer_img E html)"

section \<open>Decoding bytes\<close>

datatype errors = Strict | Replace

text \<open>
  The first character of a non-empty byte string under UTF-8, as CPython decodes it: the
  code point (\<open>None\<close> for an ill-formed sequence) and how many bytes after the first one
  belong to it. An ill-formed sequence covers the bytes read before the offending one.
\<close>

definition is_cont :: "nat \<Rightarrow> bool" where
  "is_cont c = (128 \<le> c \<and> c < 192)"

definition utf8_first :: "nat \<Rightarrow> bytes \<Rightarrow> nat option \<times> nat" where
  "utf8_first b bs =
     (if b < 128 then (Some b, 0)
      else if b < 194 then (None, 0)
      else if b < 224 then
        (case bs of
           [] \<Rightarrow> (None, 0)
         | c1 # _ \<Rightarrow> if is_cont c1 then (Some ((b - 192) * 64 + (c1 - 128)), 1) else (None, 0))
      else if b < 240 then
        (let lo = (if b = 224 then 160 else 128); hi = (if b = 237 then 159 else 191) in
         case bs of
           [] \<Rightarrow> (None, 0)
         | c1 # r1 \<Rightarrow>
             if \<not> (lo \<le> c1 \<and> c1 \<le> hi) then (None, 0)
             else
               (case r1 of
                  [] \<Rightarrow> (None, 1)
                | c2 # _ \<Rightarrow>
                    if is_cont c2
                    then (Some (((b - 224) * 64 + (c1 - 128)) * 64 + (c2 - 128)), 2)
                    else (None, 1)))
      else if b < 245 then
        (let lo = (if b = 240 then 144 else 128); hi = (if b = 244 then 143 else 191) in
         case bs of
           [] \<Rightarrow> (None, 0)
         | c1 # r1 \<Rightarrow>
             if \<not> (lo \<le> c1 \<and> c1 \<le> hi) then (None, 0)
             else
               (case r1 of
                  [] \<Rightarrow> (None, 1)
                | c2 # r2 \<Rightarrow>
                    if \<not> is_cont c2 then (None, 1)
                    else
                      (case r2 of
                         [] \<Rightarrow> (None, 2)
                       | c3 # _ \<Rightarrow>
                           if is_cont c3
                           then (Some ((((b - 240) * 64 + (c1 - 128)) * 64 + (c2 - 128)) * 64
                                       + (c3 - 128)), 3)
                           else (None, 2))))
      else (None, 0))"

text \<open>
  \<open>raw.decode("utf-8", errors=...)\<close>: under \<open>strict\<close> an ill-formed sequence raises, under
  \<open>replace\<close> it becomes U+FFFD and decoding goes on.
\<close>

fun utf8_decode :: "errors \<Rightarrow> bytes \<Rightarrow> exn + str" where
  "utf8_decode m [] = Inr []"
| "utf8_decode m (b # bs) =
     (case utf8_first b bs of
        (None, n) \<Rightarrow>
          (case m of
             Strict \<Rightarrow> Inl UnicodeDecodeError
           | Replace \<Rightarrow>
               (case utf8_decode m (drop n bs) of
                  Inl e \<Rightarrow> Inl e
                | Inr s \<Rightarrow> Inr (65533 # s)))
      | (Some c, n) \<Rightarrow>
          (case utf8_decode m (drop n bs) of
             Inl e \<Rightarrow> Inl e
           | Inr s \<Rightarrow> Inr (c # s)))"

text \<open>\<open>raw.decode("utf-8-sig")\<close>: UTF-8 after an optional byte order mark.\<close>

definition utf8_sig_decode :: "bytes \<Rightarrow> exn + str" where
  "utf8_sig_decode raw =
     utf8_decode Strict (if startswith raw [239, 187, 191] then drop 3 raw else raw)"

section \<open>The operating system\<close>

text \<open>
  The rest of the script reads and writes files and starts processes. What the
  standard library computes from its arguments alone is collected in \<open>pylib\<close>:
  \<^item> \<open>gb18030 m raw\<close>: \<open>raw.decode("gb18030", errors=m)\<close> (the code table is not part of
    the repository);
  \<^item> \<open>bytes_repr raw\<close>: \<open>str(raw)\<close>;
  \<^item> \<open>path_of s\<close>: \<open>Path(s)\<close>; \<open>path_stem p\<close>, \<open>path_parent p\<close>: \<open>p.stem\<close>, \<open>p.parent\<close>;
    \<open>path_join p s\<close>: \<open>p / s\<close>; \<open>with_suffix p s\<close>, \<open>with_name p s\<close>: the methods of that name;
  \<^item> \<open>set_order xs\<close>: the order in which \<open>set(xs)\<close> is iterated.
\<close>

record pylib =
  gb18030 :: "errors \<Rightarrow> bytes \<Rightarrow> exn + str"
  bytes_repr :: "bytes \<Rightarrow> str"
  path_of :: "str \<Rightarrow> path"
  path_stem :: "path \<Rightarrow> str"
  path_parent :: "path \<Rightarrow> path"
  path_join :: "path \<Rightarrow> str \<Rightarrow> path"
  with_suffix :: "path \<Rightarrow> str \<Rightarrow> path"
  with_name :: "path \<Rightarrow> str \<Rightarrow> path"
  set_order :: "path list \<Rightarrow> path list"

text \<open>
  The machine is a state \<open>'w\<close> with the operations the script calls on it:
  \<^item> \<open>lib\<close>: the library functions above; \<open>norm_env\<close>: the environment of the Normaliser
    (its \<open>is_file\<close> is replaced by \<open>fs_is_file\<close> of the current state); \<open>pil\<close>: whether
    \<open>from PIL import Image\<close> succeeded;
  \<^item> \<open>fs_is_file w p\<close>, \<open>fs_is_dir w p\<close>: \<open>p.is_file()\<close>, \<open>p.is_dir()\<close>, \<open>None\<close> when the call
    raises \<open>OSError\<close>;
  \<^item> \<open>read_bytes p w\<close>: \<open>p.read_bytes()\<close>, \<open>None\<close> when it raises \<open>OSError\<close>;
  \<^item> \<open>read_text p w\<close>: \<open>p.read_text(encoding="utf-8")\<close>, which raises \<open>OSError\<close> or
    \<open>UnicodeDecodeError\<close>;
  \<^item> \<open>write_text p s w\<close>, \<open>mkdir p w\<close>, \<open>unlink p w\<close>, \<open>rmdir p w\<close>: the calls of that name with
    the arguments the script gives them; the flag is \<open>False\<close> when the call raises
    \<open>OSError\<close> (\<open>rmdir\<close> does so on a directory that is not empty);
  \<^item> \<open>image_convert src dst w\<close>: \<open>Image.open(src)\<close> and \<open>im.save(dst, format="PNG")\<close>; the
    flag is \<open>False\<close> when either raises;
  \<^item> \<open>run cmd w\<close>: \<open>subprocess.run(cmd, check=True, ...)\<close>, which raises
    \<open>CalledProcessError\<close> with the captured stderr when the process exits with a
    non-zero status and \<open>OSError\<close> when it cannot be started.
  \<open>print\<close> is not modelled.
\<close>

record 'w os =
  lib :: pylib
  norm_env :: env
  pil :: bool
  fs_is_file :: "'w \<Rightarrow> path \<Rightarrow> bool option"
  fs_is_dir :: "'w \<Rightarrow> path \<Rightarrow> bool option"
  read_bytes :: "path \<Rightarrow> 'w \<Rightarrow> bytes option"
  read_text :: "path \<Rightarrow> 'w \<Rightarrow> exn + str"
  write_text :: "path \<Rightarrow> str \<Rightarrow> 'w \<Rightarrow> bool \<times> 'w"
  mkdir :: "path \<Rightarrow> 'w \<Rightarrow> bool \<times> 'w"
  unlink :: "path \<Rightarrow> 'w \<Rightarrow> bool \<times> 'w"
  rmdir :: "path \<Rightarrow> 'w \<Rightarrow> bool \<times> 'w"
  image_convert :: "path \<Rightarrow> path \<Rightarrow> 'w \<Rightarrow> bool \<times> 'w"
  run :: "str list \<Rightarrow> 'w \<Rightarrow> exn option \<times> 'w"

definition env_at :: "'w os \<Rightarrow> 'w \<Rightarrow> env" where
  "env_at os w = (norm_env os)\<lparr>is_file := fs_is_file os w\<rparr>"

text \<open>
  Every call that changes the machine is recorded, with its outcome, in the order in
  which the script makes it.
\<close>

datatype event =
    Run "str list" "exn option"
  | WriteText path str bool
  | Mkdir path bool
  | ImageConvert path path bool
  | Unlink path bool
  | Rmdir path bool

text \<open>
  The state a function of the script works on: the list \<open>temp_artifacts\<close>, the machine
  and the calls made so far.
\<close>

type_synonym 'w job = "path list \<times> 'w \<times> event list"

section \<open>The Image Transcoder\<close>

text \<open>
  The body of the loop over the matched locators. Every exception raised in it is
  caught and the loop goes on with the next locator.
\<close>

definition webp_step :: "'w os \<Rightarrow> path \<Rightarrow> str \<Rightarrow> str \<times> 'w job \<Rightarrow> str \<times> 'w job" where
  "webp_step os out_dir uri st =
     (case st of (html, arts, w, tr) \<Rightarrow>
        (case urlsplit_path (env_at os w) uri of
           None \<Rightarrow> (html, arts, w, tr)
         | Some pth \<Rightarrow>
             let webp_path = path_of (lib os) (unquote (env_at os w) (lstrip_slash pth)) in
             (case fs_is_file os w webp_path of
                None \<Rightarrow> (html, arts, w, tr)
              | Some False \<Rightarrow> (html, arts, w, tr)
              | Some True \<Rightarrow>
                  let png_name = path_stem (lib os) webp_path @ ascii ''.png'';
                      png_path = path_join (lib os) out_dir png_name;
                      (ok, w', tr') =
                        (case fs_is_file os w png_path of
                           None \<Rightarrow> (False, w, tr)
                         | Some True \<Rightarrow> (True, w, tr)
                         | Some False \<Rightarrow>
                             (case image_convert os webp_path png_path w of
                                (ok, w') \<Rightarrow> (ok, w', tr @ [ImageConvert webp_path png_path ok])))
                  in
                  if \<not> ok then (html, arts, w', tr')
                  else
                    (case path_resolve (env_at os w') png_path of
                       Inl e \<Rightarrow> (html, arts @ [png_path], w', tr')
                     | Inr p \<Rightarrow>
                         (py_replace html uri (as_uri (env_at os w') p),
                          arts @ [png_path], w', tr')))))"

fun webp_loop :: "'w os \<Rightarrow> path \<Rightarrow> str list \<Rightarrow> str \<times> 'w job \<Rightarrow> str \<times> 'w job" where
  "webp_loop os out_dir [] st = st"
| "webp_loop os out_dir (uri # uris) st = webp_loop os out_dir uris (webp_step os out_dir uri st)"

definition convert_webp_images_in_html ::
  "'w os \<Rightarrow> str \<Rightarrow> path \<Rightarrow> 'w job \<Rightarrow> str \<times> 'w job" where
  "convert_webp_images_in_html os html html_dir job =
     (case job of (arts, w, tr) \<Rightarrow>
        if \<not> pil os then (html, arts, w, tr)
        else
          let matches = dedupe (findall_webp html) in
          if matches = [] then (html, arts, w, tr)
          else
            let out_dir = path_join (lib os) html_dir (ascii ''.__wkhtml_img_tmp__'') in
            (case mkdir os out_dir w of
               (False, w') \<Rightarrow> (html, arts, w', tr @ [Mkdir out_dir False])
             | (True, w') \<Rightarrow>
                 (case webp_loop os out_dir matches (html, arts, w', tr @ [Mkdir out_dir True]) of
                    (html', arts', w'', tr') \<Rightarrow> (html', arts' @ [out_dir], w'', tr'))))"

section \<open>The Sanitizer\<close>

text \<open>
  \<open>sanitize_html_for_wkhtmltopdf\<close>, called with the artifact list of the job. The first
  component is the exception that leaves the function, if any; \<open>OSError\<close> on reading and
  on writing is caught.
\<close>

definition sanitize_html_for_wkhtmltopdf ::
  "'w os \<Rightarrow> bool \<Rightarrow> path \<Rightarrow> 'w job \<Rightarrow> exn option \<times> 'w job" where
  "sanitize_html_for_wkhtmltopdf os keep_html_on_success html_path job =
     (case job of (arts, w, tr) \<Rightarrow>
        (case read_text os html_path w of
           Inl e \<Rightarrow> (if e = OSError then (None, arts, w, tr) else (Some e, arts, w, tr))
         | Inr html \<Rightarrow>
             let parent = path_parent (lib os) html_path in
             (case rewrite_local_urls_to_file_uri (env_at os w) (fixed_substitutions html) parent of
                Inl e \<Rightarrow> (Some e, arts, w, tr)
              | Inr html1 \<Rightarrow>
                  (case convert_webp_images_in_html os html1 parent (arts, w, tr) of
                     (html2, arts2, w2, tr2) \<Rightarrow>
                       (case (if keep_html_on_success
                              then debug_scan (env_at os w2) parent html2 else None) of
                          Some e \<Rightarrow> (Some e, arts2, w2, tr2)
                        | None \<Rightarrow>
                            (case write_text os html_path html2 w2 of
                               (ok, w3) \<Rightarrow>
                                 (None, arts2, w3, tr2 @ [WriteText html_path html2 ok])))))))"

section \<open>The Conversion Orchestrator\<close>

definition ensure_utf8_markdown ::
  "'w os \<Rightarrow> path \<Rightarrow> path \<Rightarrow> 'w \<times> event list \<Rightarrow> (exn + path) \<times> 'w \<times> event list" where
  "ensure_utf8_markdown os input_path md_tmp_path st =
     (case st of (w, tr) \<Rightarrow>
        (case read_bytes os input_path w of
           None \<Rightarrow> (Inr input_path, w, tr)
         | Some raw \<Rightarrow>
             (case utf8_decode Strict raw of
                Inr _ \<Rightarrow> (Inr input_path, w, tr)
              | Inl _ \<Rightarrow>
                  (case (case utf8_sig_decode raw of
                           Inr text \<Rightarrow> Inr text
                         | Inl _ \<Rightarrow> gb18030 (lib os) Strict raw) of
                     Inl e \<Rightarrow> (Inl e, w, tr)
                   | Inr text \<Rightarrow>
                       (case write_text os md_tmp_path text w of
                          (ok, w') \<Rightarrow>
                            (if ok then Inr md_tmp_path else Inl OSError,
                             w', tr @ [WriteText md_tmp_path text ok]))))))"

definition build_pandoc_cmd :: "path \<Rightarrow> path \<Rightarrow> str \<Rightarrow> str list \<Rightarrow> str list" where
  "build_pandoc_cmd input_md html_path title css_uris =
     [ascii ''pandoc'', input_md, ascii ''-o'', html_path, ascii ''--standalone'',
      ascii ''--metadata'', ascii ''pagetitle='' @ title]
     @ map (\<lambda>uri. ascii ''--css='' @ uri) (filter (\<lambda>uri. uri \<noteq> []) css_uris)"

definition wkhtmltopdf_style_args :: "str list" where
  "wkhtmltopdf_style_args =
     [ascii ''--page-size'', ascii ''A4'',
      ascii ''--margin-top'', ascii ''15mm'',
      ascii ''--margin-right'', ascii ''15mm'',
      ascii ''--margin-bottom'', ascii ''15mm'',
      ascii ''--margin-left'', ascii ''15mm'',
      ascii ''--print-media-type'',
      ascii ''--disable-smart-shrinking'',
      ascii ''--dpi'', ascii ''96'',
      ascii ''--zoom'', ascii ''1.0'']"

definition build_wkhtmltopdf_cmd :: "path \<Rightarrow> path \<Rightarrow> str list" where
  "build_wkhtmltopdf_cmd html_path output_pdf =
     [ascii ''wkhtmltopdf'', ascii ''--enable-local-file-access'',
      ascii ''--load-error-handling'', ascii ''ignore'',
      ascii ''--load-media-error-handling'', ascii ''ignore'',
      ascii ''--encoding'', ascii ''utf-8'']
     @ wkhtmltopdf_style_args @ [html_path, output_pdf]"

definition run_command :: "'w os \<Rightarrow> str list \<Rightarrow> 'w job \<Rightarrow> exn option \<times> 'w job" where
  "run_command os cmd job =
     (case job of (arts, w, tr) \<Rightarrow>
        (case run os cmd w of (r, w') \<Rightarrow> (r, arts, w', tr @ [Run cmd r])))"

definition decode_stderr :: "pylib \<Rightarrow> bytes \<Rightarrow> str" where
  "decode_stderr L err_bytes =
     (if err_bytes = [] then []
      else
        (case utf8_decode Replace err_bytes of
           Inr s \<Rightarrow> strip s
         | Inl _ \<Rightarrow>
             (case gb18030 L Replace err_bytes of
                Inr s \<Rightarrow> strip s
              | Inl _ \<Rightarrow> bytes_repr L err_bytes)))"

text \<open>
  The retry inside \<open>except subprocess.CalledProcessError as wk_err\<close>, taken when
  \<open>css_uris\<close> is not empty.
\<close>

definition retry_without_css ::
  "'w os \<Rightarrow> bool \<Rightarrow> str list \<Rightarrow> str list \<Rightarrow> path \<Rightarrow> 'w job \<Rightarrow> exn option \<times> 'w job" where
  "retry_without_css os keep pandoc_cmd_no_css wkhtml_cmd html_path job =
     (case run_command os pandoc_cmd_no_css job of
        (Some e, job1) \<Rightarrow> (Some e, job1)
      | (None, job1) \<Rightarrow>
          (case sanitize_html_for_wkhtmltopdf os keep html_path job1 of
             (Some e, job2) \<Rightarrow> (Some e, job2)
           | (None, job2) \<Rightarrow> run_command os wkhtml_cmd job2))"

text \<open>
  The body of the outer \<open>try\<close>: the exception that leaves it (\<open>None\<close> when it runs to its
  end, which sets \<open>success\<close>).
\<close>

definition try_body ::
  "'w os \<Rightarrow> bool \<Rightarrow> str list \<Rightarrow> str list \<Rightarrow> str list \<Rightarrow> path \<Rightarrow> str list \<Rightarrow> 'w job
     \<Rightarrow> exn option \<times> 'w job" where
  "try_body os keep pandoc_cmd pandoc_cmd_no_css wkhtml_cmd html_path css_uris job =
     (case run_command os pandoc_cmd job of
        (Some e, job1) \<Rightarrow> (Some e, job1)
      | (None, job1) \<Rightarrow>
          (case sanitize_html_for_wkhtmltopdf os keep html_path job1 of
             (Some e, job2) \<Rightarrow> (Some e, job2)
           | (None, job2) \<Rightarrow>
               (case run_command os wkhtml_cmd job2 of
                  (None, job3) \<Rightarrow> (None, job3)
                | (Some (CalledProcessError err), job3) \<Rightarrow>
                    if css_uris \<noteq> []
                    then retry_without_css os keep pandoc_cmd_no_css wkhtml_cmd html_path job3
                    else (Some (CalledProcessError err), job3)
                | (Some e, job3) \<Rightarrow> (Some e, job3))))"

text \<open>
  The loop over \<open>sorted(set(temp_artifacts), key=lambda x: len(str(x)), reverse=True)\<close>. An
  \<open>OSError\<close> of \<open>is_file\<close>, \<open>is_dir\<close>, \<open>unlink\<close> or \<open>rmdir\<close> is caught inside the loop, which
  goes on with the next path.
\<close>

fun cleanup_artifacts :: "'w os \<Rightarrow> path list \<Rightarrow> 'w \<times> event list \<Rightarrow> 'w \<times> event list" where
  "cleanup_artifacts os [] st = st"
| "cleanup_artifacts os (p # ps) st =
     (case st of (w, tr) \<Rightarrow>
        (case fs_is_file os w p of
           None \<Rightarrow> cleanup_artifacts os ps (w, tr)
         | Some True \<Rightarrow>
             (case unlink os p w of (ok, w') \<Rightarrow> cleanup_artifacts os ps (w', tr @ [Unlink p ok]))
         | Some False \<Rightarrow>
             (case fs_is_dir os w p of
                Some True \<Rightarrow>
                  (case rmdir os p w of (ok, w') \<Rightarrow> cleanup_artifacts os ps (w', tr @ [Rmdir p ok]))
              | _ \<Rightarrow> cleanup_artifacts os ps (w, tr))))"

definition artifact_order :: "pylib \<Rightarrow> path list \<Rightarrow> path list" where
  "artifact_order L temp_artifacts =
     sort_key (\<lambda>p. - int (length p)) (set_order L temp_artifacts)"

text \<open>
  The first two steps of the \<open>finally\<close> block on success: the temporary HTML (unless it
  is to be kept) and the re-encoded Markdown are removed. The flag is \<open>False\<close> when one of
  the two \<open>is_file\<close> calls or of the two \<open>unlink\<close> calls raises \<open>OSError\<close>, which leaves the
  statements of the block and is caught by its outer \<open>except OSError: pass\<close>.
\<close>

definition remove_temp_files ::
  "'w os \<Rightarrow> bool \<Rightarrow> path \<Rightarrow> path \<Rightarrow> 'w \<times> event list \<Rightarrow> bool \<times> 'w \<times> event list" where
  "remove_temp_files os keep html_path md_tmp_path st =
     (case st of (w, tr) \<Rightarrow>
        (case fs_is_file os w html_path of
           None \<Rightarrow> (False, w, tr)
         | Some is_html \<Rightarrow>
             (case (if is_html \<and> \<not> keep
                    then (case unlink os html_path w of
                            (ok, w') \<Rightarrow> (ok, w', tr @ [Unlink html_path ok]))
                    else (True, w, tr)) of
                (False, w1, tr1) \<Rightarrow> (False, w1, tr1)
              | (True, w1, tr1) \<Rightarrow>
                  (case fs_is_file os w1 md_tmp_path of
                     None \<Rightarrow> (False, w1, tr1)
                   | Some True \<Rightarrow>
                       (case unlink os md_tmp_path w1 of
                          (ok, w') \<Rightarrow> (ok, w', tr1 @ [Unlink md_tmp_path ok]))
                   | Some False \<Rightarrow> (True, w1, tr1)))))"

text \<open>The \<open>finally\<close> block.\<close>

definition cleanup ::
  "'w os \<Rightarrow> bool \<Rightarrow> bool \<Rightarrow> path \<Rightarrow> path \<Rightarrow> 'w job \<Rightarrow> 'w \<times> event list" where
  "cleanup os keep success html_path md_tmp_path job =
     (case job of (arts, w, tr) \<Rightarrow>
        if \<not> success then (w, tr)
        else
          (case remove_temp_files os keep html_path md_tmp_path (w, tr) of
             (False, w2, tr2) \<Rightarrow> (w2, tr2)
           | (True, w2, tr2) \<Rightarrow>
               if \<not> keep
               then cleanup_artifacts os (artifact_order (lib os) arts) (w2, tr2)
               else (w2, tr2)))"

text \<open>The path a deletion call is made on.\<close>

fun deletion_target :: "event \<Rightarrow> path option" where
  "deletion_target (Unlink p ok) = Some p"
| "deletion_target (Rmdir p ok) = Some p"
| "deletion_target e = None"

text \<open>
  \<open>convert_one_file\<close>: the value returned or the exception raised, the machine it leaves
  and the calls it made. \<open>CalledProcessError\<close> is the only exception the \<open>try\<close> statement
  catches; any other one leaves the function after the \<open>finally\<close> block.
\<close>

definition convert_one_file ::
  "'w os \<Rightarrow> bool \<Rightarrow> path \<Rightarrow> str list \<Rightarrow> 'w \<Rightarrow> (exn + bool) \<times> 'w \<times> event list" where
  "convert_one_file os keep_html_on_success md_path css_uris w =
     (let file_name_no_ext = path_stem (lib os) md_path;
          output_pdf = with_suffix (lib os) md_path (ascii ''.pdf'');
          html_path = with_name (lib os) md_path (file_name_no_ext @ ascii ''.html'');
          md_tmp_path = with_name (lib os) md_path (file_name_no_ext @ ascii ''.__pandoc_tmp__.md'')
      in
      case ensure_utf8_markdown os md_path md_tmp_path (w, []) of
        (Inl e, w0, tr0) \<Rightarrow> (Inl e, w0, tr0)
      | (Inr pandoc_input, w0, tr0) \<Rightarrow>
          let pandoc_cmd = build_pandoc_cmd pandoc_input html_path file_name_no_ext css_uris;
              pandoc_cmd_no_css = build_pandoc_cmd pandoc_input html_path file_name_no_ext [];
              wkhtml_cmd = build_wkhtmltopdf_cmd html_path output_pdf
          in
          (case try_body os keep_html_on_success pandoc_cmd pandoc_cmd_no_css wkhtml_cmd
                  html_path css_uris ([], w0, tr0) of
             (raised, job) \<Rightarrow>
               let success = (raised = None);
                   (w1, tr1) = cleanup os keep_html_on_success success html_path md_tmp_path job
               in
               (case raised of
                  None \<Rightarrow> (Inr True, w1, tr1)
                | Some (CalledProcessError err) \<Rightarrow> (Inr False, w1, tr1)
                | Some e \<Rightarrow> (Inl e, w1, tr1))))"

text \<open>
  What the properties below read off a job: the calls made so far, and how many of them
  started the renderer (\<open>wkhtmltopdf\<close>).
\<close>

fun renderer_run :: "event \<Rightarrow> bool" where
  "renderer_run (Run cmd r) = (case cmd of [] \<Rightarrow> False | prog # args \<Rightarrow> prog = ascii ''wkhtmltopdf'')"
| "renderer_run e = False"

definition renderer_runs :: "event list \<Rightarrow> nat" where
  "renderer_runs tr = length (filter renderer_run tr)"

definition trace_of :: "'w job \<Rightarrow> event list" where
  "trace_of job = snd (snd job)"

text \<open>
  The file a matched locator is resolved back to (none when \<open>urlsplit\<close> raises), and the
  output path derived from it.
\<close>

definition webp_source :: "'w os \<Rightarrow> str \<Rightarrow> path option" where
  "webp_source os uri =
     (case urlsplit_path (norm_env os) uri of
        None \<Rightarrow> None
      | Some pth \<Rightarrow> Some (path_of (lib os) (unquote (norm_env os) (lstrip_slash pth))))"

definition png_target :: "'w os \<Rightarrow> path \<Rightarrow> path \<Rightarrow> path" where
  "png_target os out_dir webp_path =
     path_join (lib os) out_dir (path_stem (lib os) webp_path @ ascii ''.png'')"

text \<open>What the properties ask of the image library: it creates what it saves and removes nothing.\<close>

definition codec_sane :: "'w os \<Rightarrow> bool" where
  "codec_sane os =
     (\<forall>src dst w ok w'. image_convert os src dst w = (ok, w') \<longrightarrow>
        (ok \<longrightarrow> fs_is_file os w' dst = Some True)
      \<and> (\<forall>p. fs_is_file os w p = Some True \<longrightarrow> fs_is_file os w' p = Some True))"

section \<open>A small machine for concrete runs\<close>

text \<open>
  A POSIX machine reduced to what the concrete runs below need: its working directory is
  \<open>/\<close>, its text files are held in an association list under their absolute paths (the
  first entry of a path is its content), and it has a list of directories,
  a list of paths on which every change is refused, and the outcomes of the processes
  still to be started (a process started after the list is used up succeeds). An empty
  file is not an image that can be decoded, and every call on a path with a name of more
  than 255 bytes raises \<open>OSError\<close>.
\<close>

record sim =
  files :: "(path \<times> str) list"
  dirs :: "path list"
  locked :: "path list"
  script :: "exn option list"

definition sim_abs :: "path \<Rightarrow> path" where
  "sim_abs p = (if startswith p (ascii ''/'') then p else ascii ''/'' @ p)"

definition refused :: "sim \<Rightarrow> path \<Rightarrow> bool" where
  "refused w p = (p \<in> set (locked w) \<or> name_too_long (sim_abs p))"

definition posix_name :: "path \<Rightarrow> str" where
  "posix_name p = rev (takeWhile (\<lambda>c. c \<noteq> 47) (rev p))"

definition posix_parent :: "path \<Rightarrow> path" where
  "posix_parent p = rev (drop 1 (dropWhile (\<lambda>c. c \<noteq> 47) (rev p)))"

definition posix_stem :: "path \<Rightarrow> str" where
  "posix_stem p =
     (let name = posix_name p;
          cut = rev (drop 1 (dropWhile (\<lambda>c. c \<noteq> 46) (rev name)))
      in if cut = [] then name else cut)"

definition sim_lib :: pylib where
  "sim_lib = \<lparr>
     gb18030 = (\<lambda>m raw. if raw = [214, 208] then Inr [20013] else Inl UnicodeDecodeError),
     bytes_repr = (\<lambda>raw. ascii ''b'' @ [39] @ raw @ [39]),
     path_of = (\<lambda>s. s),
     path_stem = posix_stem,
     path_parent = posix_parent,
     path_join = (\<lambda>p s. p @ ascii ''/'' @ s),
     with_suffix = (\<lambda>p s. posix_parent p @ ascii ''/'' @ posix_stem p @ s),
     with_name = (\<lambda>p s. posix_parent p @ ascii ''/'' @ s),
     set_order = remdups \<rparr>"

definition sim_os :: "sim os" where
  "sim_os = \<lparr>
     lib = sim_lib,
     norm_env = doc_env,
     pil = True,
     fs_is_file = (\<lambda>w p. if name_too_long (sim_abs p) then None
                         else Some (map_of (files w) (sim_abs p) \<noteq> None)),
     fs_is_dir = (\<lambda>w p. if name_too_long (sim_abs p) then None else Some (p \<in> set (dirs w))),
     read_bytes = (\<lambda>p w. if name_too_long (sim_abs p) then None else map_of (files w) (sim_abs p)),
     read_text = (\<lambda>p w.
        if name_too_long (sim_abs p) then Inl OSError
        else (case map_of (files w) (sim_abs p) of None \<Rightarrow> Inl OSError | Some s \<Rightarrow> Inr s)),
     write_text = (\<lambda>p s w.
        if refused w p then (False, w)
        else (True, w\<lparr>files := (sim_abs p, s) # files w\<rparr>)),
     mkdir = (\<lambda>p w.
        if refused w p then (False, w)
        else (True, w\<lparr>dirs := p # dirs w\<rparr>)),
     unlink = (\<lambda>p w.
        if refused w p \<or> map_of (files w) (sim_abs p) = None then (False, w)
        else (True, w\<lparr>files := filter (\<lambda>e. fst e \<noteq> sim_abs p) (files w)\<rparr>)),
     rmdir = (\<lambda>p w.
        if refused w p \<or> p \<notin> set (dirs w)
           \<or> list_ex (\<lambda>e. startswith (fst e) (p @ ascii ''/'')) (files w)
        then (False, w)
        else (True, w\<lparr>dirs := filter (\<lambda>d. d \<noteq> p) (dirs w)\<rparr>)),
     image_convert = (\<lambda>src dst w.
        if name_too_long (sim_abs src) \<or> refused w dst then (False, w)
        else
          (case map_of (files w) (sim_abs src) of
             Some (c # cs) \<Rightarrow> (True, w\<lparr>files := (sim_abs dst, ascii ''PNG'') # files w\<rparr>)
           | _ \<Rightarrow> (False, w))),
     run = (\<lambda>cmd w.
        case script w of
          [] \<Rightarrow> (None, w)
        | r # rs \<Rightarrow> (r, w\<lparr>script := rs\<rparr>)) \<rparr>"

text \<open>The temporary HTML of the concrete runs.\<close>

definition t_html :: path where
  "t_html = ascii ''/doc/t.html''"


section \<open>Unfolding the model on concrete inputs\<close>

lemmas rewriter_eval =
  rewrite_local_urls_to_file_uri_def match_attr_name_def word_boundary_def is_word_def
  ci_eq_def replace_attr_def replace_srcset_def to_uri_if_exists_def should_keep_def
  normalize_local_path_def drive_letter_abs_def lstrip_slash_def as_uri_def
  strip_def lstrip_def rstrip_def isspace_def py_replace_def split_ws.simps Let_def

lemmas sim_eval =
  sim_os_def sim_lib_def doc_env_def name_too_long_def utf8_encode_def posix_quote_def
  unreserved_def env_at_def sim_abs_def refused_def posix_name_def posix_parent_def posix_stem_def


section \<open>Properties of the Normaliser\<close>

text \<open>
  C3. A reference that, once stripped of surrounding whitespace, is empty or starts with
  \<open>#\<close>, \<open>http://\<close>, \<open>https://\<close>, \<open>data:\<close>, \<open>mailto:\<close> or \<open>file://\<close> is returned unchanged,
  whatever the base directory and the state of the file system.
\<close>

theorem keep_returned_unchanged:
  assumes "strip url = []
         \<or> startswith (strip url) (ascii ''#'')
         \<or> startswith (strip url) (ascii ''http://'')
         \<or> startswith (strip url) (ascii ''https://'')
         \<or> startswith (strip url) (ascii ''data:'')
         \<or> startswith (strip url) (ascii ''mailto:'')
         \<or> startswith (strip url) (ascii ''file://'')"
  shows "to_uri_if_exists E base_dir url = Inr url"
proof -
  from assms have "should_keep url"
    unfolding should_keep_def Let_def by blast
  then show ?thesis
    by (simp add: to_uri_if_exists_def)
qed

theorem keep_returned_unchanged_witness:
  "startswith (strip (ascii '' https://example.org/a.png'')) (ascii ''https://'')
   \<and> to_uri_if_exists doc_env (ascii ''/doc'') (ascii '' https://example.org/a.png'')
       = Inr (ascii '' https://example.org/a.png'')"
proof -
  have h: "startswith (strip (ascii '' https://example.org/a.png'')) (ascii ''https://'')"
    by (simp add: strip_def lstrip_def rstrip_def isspace_def)
  then show ?thesis
    using keep_returned_unchanged [of "ascii '' https://example.org/a.png''" doc_env "ascii ''/doc''"]
    by blast
qed

text \<open>
  A reference that is one name of 256 letters: no file of that name can exist, and the
  system refuses to look it up.
\<close>

definition long_name :: str where
  "long_name = replicate 256 97"

lemma long_name_Cons: "long_name = 97 # 97 # 97 # replicate 253 97"
proof -
  have "replicate (Suc (Suc (Suc 253))) (97::nat) = 97 # 97 # 97 # replicate 253 97"
    by (simp only: replicate_Suc)
  then show ?thesis by (simp add: long_name_def)
qed

lemma replace_from_letters: "replace_from [92] new (replicate n 97) = replicate n 97"
  by (induction n) simp_all

lemma split_on_letters: "split_on 47 (replicate n 97) = [replicate n 97]"
  by (induction n) simp_all

lemma utf8_encode_letters: "concat (map utf8_encode (replicate n 97)) = replicate n 97"
  by (induction n) (simp_all add: utf8_encode_def)

lemma long_name_normalized: "normalize_local_path doc_env long_name = long_name"
proof -
  have s: "strip long_name = long_name"
    by (simp add: long_name_def strip_def lstrip_def rstrip_def isspace_def)
  have f: "\<not> startswith long_name (ascii ''file://'')"
    by (simp add: long_name_Cons)
  have t: "takeWhile (\<lambda>c. c \<noteq> 63 \<and> c \<noteq> 35) long_name = long_name"
    by (simp add: long_name_def)
  have r: "py_replace long_name [92] [47] = long_name"
    by (simp add: py_replace_def long_name_def replace_from_letters)
  have "urlsplit_path doc_env long_name
          = Some (takeWhile (\<lambda>c. c \<noteq> 63 \<and> c \<noteq> 35) long_name)"
    using f by (simp add: doc_env_def)
  then have us: "urlsplit_path doc_env long_name = Some long_name"
    unfolding t .
  have uq: "unquote doc_env long_name = long_name"
    by (simp add: doc_env_def)
  show ?thesis
    unfolding normalize_local_path_def Let_def s us by (simp add: uq r)
qed

lemma long_name_too_long: "name_too_long (ascii ''/doc/'' @ long_name)"
proof -
  have "split_on 47 (ascii ''/doc/'' @ long_name) = [[], ascii ''doc'', long_name]"
    by (simp add: long_name_def split_on_letters)
  moreover have "length (concat (map utf8_encode long_name)) = 256"
    by (simp only: long_name_def utf8_encode_letters length_replicate)
  ultimately show ?thesis
    by (simp add: name_too_long_def utf8_encode_def)
qed

text \<open>
  C4 as stated fails: the reference \<open>long_name\<close> is not kept, is not a drive-letter path,
  does not begin with \<open>/\<close> and resolves against \<open>/doc\<close> to a path that is not an existing
  file, yet the Normaliser does not return it: \<open>is_file\<close> raises \<open>OSError\<close>. A reference with
  an embedded null character does not come back either: \<open>resolve\<close> raises \<open>ValueError\<close>.
\<close>

theorem unresolved_reference_raises:
  "\<not> should_keep long_name
   \<and> \<not> drive_letter_abs (normalize_local_path doc_env long_name)
   \<and> \<not> startswith (normalize_local_path doc_env long_name) (ascii ''/'')
   \<and> join_resolve doc_env (ascii ''/doc'') (normalize_local_path doc_env long_name)
       = Inr (ascii ''/doc/'' @ long_name)
   \<and> is_file doc_env (ascii ''/doc/'' @ long_name) \<noteq> Some True
   \<and> to_uri_if_exists doc_env (ascii ''/doc'') long_name = Inl OSError
   \<and> \<not> should_keep [97, 0]
   \<and> to_uri_if_exists doc_env (ascii ''/doc'') [97, 0] = Inl ValueError"
proof -
  have s: "strip long_name = long_name"
    by (simp add: long_name_def strip_def lstrip_def rstrip_def isspace_def)
  have k: "\<not> should_keep long_name"
    unfolding should_keep_def Let_def s by (simp add: long_name_Cons)
  have d: "\<not> drive_letter_abs long_name" "\<not> startswith long_name (ascii ''/'')"
    by (simp_all add: long_name_Cons drive_letter_abs_def)
  have z: "0 \<notin> set long_name" by (simp add: long_name_def)
  have j: "join_resolve doc_env (ascii ''/doc'') long_name = Inr (ascii ''/doc/'' @ long_name)"
    using d(2) z by (simp add: doc_env_def)
  have f: "is_file doc_env (ascii ''/doc/'' @ long_name) = None"
    using long_name_too_long by (simp add: doc_env_def)
  have r: "to_uri_if_exists doc_env (ascii ''/doc'') long_name = Inl OSError"
    unfolding to_uri_if_exists_def Let_def long_name_normalized using k d j f by simp
  have k0: "\<not> should_keep [97, 0]"
    by (simp add: should_keep_def strip_def lstrip_def rstrip_def isspace_def)
  have r0: "to_uri_if_exists doc_env (ascii ''/doc'') [97, 0] = Inl ValueError"
    by (simp add: to_uri_if_exists_def should_keep_def normalize_local_path_def
        drive_letter_abs_def doc_env_def strip_def lstrip_def rstrip_def isspace_def
        py_replace_def)
  show ?thesis
    unfolding long_name_normalized using k d j f r k0 r0 by simp
qed

text \<open>
  C4 (amended). For a reference that is not kept and whose decoded value is not a
  drive-letter path:
  \<^item> it is returned unchanged when the decoded value, resolved against the base directory,
    is reported by \<open>is_file\<close> not to be an existing file and, if the decoded value begins
    with \<open>/\<close>, the value without its leading slashes, resolved against the base directory,
    is reported not to be an existing file either;
  \<^item> what is returned is the reference itself or the locator of one of these two resolved
    paths, and then \<open>is_file\<close> has returned \<open>True\<close> for that path: no locator is made up
    for a file that does not exist;
  \<^item> an exception raised by one of the two resolutions leaves the Normaliser, and so does
    the \<open>OSError\<close> of an \<open>is_file\<close> call.
\<close>

theorem unresolved_returned_unchanged:
  assumes "\<not> should_keep url"
    and "\<not> drive_letter_abs (normalize_local_path E url)"
  shows "(\<forall>candidate.
            join_resolve E base_dir (normalize_local_path E url) = Inr candidate
          \<and> is_file E candidate = Some False
          \<and> (startswith (normalize_local_path E url) (ascii ''/'') \<longrightarrow>
               (\<exists>candidate2.
                   join_resolve E base_dir (lstrip_slash (normalize_local_path E url))
                     = Inr candidate2
                 \<and> is_file E candidate2 = Some False))
          \<longrightarrow> to_uri_if_exists E base_dir url = Inr url)
       \<and> (\<forall>r. to_uri_if_exists E base_dir url = Inr r \<and> r \<noteq> url \<longrightarrow>
            (\<exists>c. is_file E c = Some True \<and> r = as_uri E c
               \<and> (join_resolve E base_dir (normalize_local_path E url) = Inr c
                  \<or> startswith (normalize_local_path E url) (ascii ''/'')
                    \<and> join_resolve E base_dir (lstrip_slash (normalize_local_path E url))
                        = Inr c)))
       \<and> (\<forall>e. join_resolve E base_dir (normalize_local_path E url) = Inl e
            \<longrightarrow> to_uri_if_exists E base_dir url = Inl e)
       \<and> (\<forall>candidate.
            join_resolve E base_dir (normalize_local_path E url) = Inr candidate
          \<and> is_file E candidate = None
            \<longrightarrow> to_uri_if_exists E base_dir url = Inl OSError)
       \<and> (\<forall>candidate e.
            join_resolve E base_dir (normalize_local_path E url) = Inr candidate
          \<and> is_file E candidate = Some False
          \<and> startswith (normalize_local_path E url) (ascii ''/'')
          \<and> join_resolve E base_dir (lstrip_slash (normalize_local_path E url)) = Inl e
            \<longrightarrow> to_uri_if_exists E base_dir url = Inl e)
       \<and> (\<forall>candidate candidate2.
            join_resolve E base_dir (normalize_local_path E url) = Inr candidate
          \<and> is_file E candidate = Some False
          \<and> startswith (normalize_local_path E url) (ascii ''/'')
          \<and> join_resolve E base_dir (lstrip_slash (normalize_local_path E url)) = Inr candidate2
          \<and> is_file E candidate2 = None
            \<longrightarrow> to_uri_if_exists E base_dir url = Inl OSError)"
proof -
  let ?u = "normalize_local_path E url"
  have 1: "to_uri_if_exists E base_dir url = Inr url"
    if "join_resolve E base_dir ?u = Inr candidate" "is_file E candidate = Some False"
       "startswith ?u (ascii ''/'') \<longrightarrow>
          (\<exists>candidate2. join_resolve E base_dir (lstrip_slash ?u) = Inr candidate2
                        \<and> is_file E candidate2 = Some False)"
    for candidate
  proof (cases "startswith ?u (ascii ''/'')")
    case True
    with that(3) obtain candidate2 where
      "join_resolve E base_dir (lstrip_slash ?u) = Inr candidate2"
      "is_file E candidate2 = Some False"
      by blast
    with assms that(1,2) True show ?thesis
      by (simp add: to_uri_if_exists_def Let_def)
  next
    case False
    with assms that(1,2) show ?thesis
      by (simp add: to_uri_if_exists_def Let_def)
  qed
  have 2: "\<exists>c. is_file E c = Some True \<and> r = as_uri E c
               \<and> (join_resolve E base_dir ?u = Inr c
                  \<or> startswith ?u (ascii ''/'')
                    \<and> join_resolve E base_dir (lstrip_slash ?u) = Inr c)"
    if "to_uri_if_exists E base_dir url = Inr r" "r \<noteq> url" for r
    using that assms unfolding to_uri_if_exists_def Let_def
    by (auto split: sum.splits option.splits bool.splits if_splits)
  have 3: "to_uri_if_exists E base_dir url = Inl e"
    if "join_resolve E base_dir ?u = Inl e" for e
    using that assms by (simp add: to_uri_if_exists_def Let_def)
  have 4: "to_uri_if_exists E base_dir url = Inl OSError"
    if "join_resolve E base_dir ?u = Inr candidate" "is_file E candidate = None" for candidate
    using that assms by (simp add: to_uri_if_exists_def Let_def)
  have 5: "to_uri_if_exists E base_dir url = Inl e"
    if "join_resolve E base_dir ?u = Inr candidate" "is_file E candidate = Some False"
       "startswith ?u (ascii ''/'')" "join_resolve E base_dir (lstrip_slash ?u) = Inl e"
    for candidate e
    using that assms by (simp add: to_uri_if_exists_def Let_def)
  have 6: "to_uri_if_exists E base_dir url = Inl OSError"
    if "join_resolve E base_dir ?u = Inr candidate" "is_file E candidate = Some False"
       "startswith ?u (ascii ''/'')" "join_resolve E base_dir (lstrip_slash ?u) = Inr candidate2"
       "is_file E candidate2 = None"
    for candidate candidate2
    using that assms by (simp add: to_uri_if_exists_def Let_def)
  show ?thesis
    using 1 2 3 4 5 6 by blast
qed

theorem unresolved_returned_unchanged_witness:
  "\<not> should_keep (ascii ''/nope.png'')
   \<and> \<not> drive_letter_abs (normalize_local_path doc_env (ascii ''/nope.png''))
   \<and> join_resolve doc_env (ascii ''/doc'') (normalize_local_path doc_env (ascii ''/nope.png''))
       = Inr (ascii ''/nope.png'')
   \<and> is_file doc_env (ascii ''/nope.png'') = Some False
   \<and> startswith (normalize_local_path doc_env (ascii ''/nope.png'')) (ascii ''/'')
   \<and> join_resolve doc_env (ascii ''/doc'')
         (lstrip_slash (normalize_local_path doc_env (ascii ''/nope.png'')))
       = Inr (ascii ''/doc/nope.png'')
   \<and> is_file doc_env (ascii ''/doc/nope.png'') = Some False
   \<and> to_uri_if_exists doc_env (ascii ''/doc'') (ascii ''/nope.png'') = Inr (ascii ''/nope.png'')"
proof -
  have n: "normalize_local_path doc_env (ascii ''/nope.png'') = ascii ''/nope.png''"
    by (simp add: normalize_local_path_def doc_env_def strip_def lstrip_def rstrip_def
        isspace_def py_replace_def)
  have k: "\<not> should_keep (ascii ''/nope.png'')"
    by (simp add: should_keep_def strip_def lstrip_def rstrip_def isspace_def)
  have d: "\<not> drive_letter_abs (normalize_local_path doc_env (ascii ''/nope.png''))"
    unfolding n by (simp add: drive_letter_abs_def)
  have j: "join_resolve doc_env (ascii ''/doc'') (normalize_local_path doc_env (ascii ''/nope.png''))
           = Inr (ascii ''/nope.png'')"
    unfolding n by (simp add: doc_env_def)
  have f: "is_file doc_env (ascii ''/nope.png'') = Some False"
    by (simp add: doc_env_def name_too_long_def utf8_encode_def)
  have s: "startswith (normalize_local_path doc_env (ascii ''/nope.png'')) (ascii ''/'')"
    unfolding n by simp
  have j2: "join_resolve doc_env (ascii ''/doc'')
              (lstrip_slash (normalize_local_path doc_env (ascii ''/nope.png'')))
            = Inr (ascii ''/doc/nope.png'')"
    unfolding n by (simp add: doc_env_def lstrip_slash_def)
  have f2: "is_file doc_env (ascii ''/doc/nope.png'') = Some False"
    by (simp add: doc_env_def name_too_long_def utf8_encode_def)
  have "to_uri_if_exists doc_env (ascii ''/doc'') (ascii ''/nope.png'') = Inr (ascii ''/nope.png'')"
    using unresolved_returned_unchanged [OF k d, of "ascii ''/doc''"] j f j2 f2 by blast
  with k d j f s j2 f2 show ?thesis by blast
qed

section \<open>Facts about the string methods\<close>



lemma startswith_hd: "startswith s p \<Longrightarrow> p \<noteq> [] \<Longrightarrow> s \<noteq> [] \<and> hd s = hd p"
  by (cases s; cases p) simp_all

lemma contains_drop: "\<not> contains s p \<Longrightarrow> p \<noteq> [] \<Longrightarrow> \<not> contains (drop n s) p"
proof (induction s arbitrary: n)
  case Nil
  then show ?case by simp
next
  case (Cons c cs)
  then show ?case by (cases n) simp_all
qed







lemma startswith_append_left: "startswith s p \<Longrightarrow> startswith (s @ t) p"
  by (induction s p rule: startswith.induct) simp_all





section \<open>Properties of the decoding steps\<close>

lemma utf8_replace_total: "\<exists>s. utf8_decode Replace bs = Inr s"
proof (induction bs rule: length_induct)
  case (1 bs)
  show ?case
  proof (cases bs)
    case Nil
    then show ?thesis by simp
  next
    case (Cons b bs')
    obtain cp n where f: "utf8_first b bs' = (cp, n)" by (cases "utf8_first b bs'")
    have "length (drop n bs') < length bs" using Cons by simp
    with 1 obtain s where "utf8_decode Replace (drop n bs') = Inr s" by blast
    with Cons f show ?thesis by (cases cp) simp_all
  qed
qed

lemma utf8_replace_D6D0: "utf8_decode Replace [214, 208] = Inr [65533, 65533]"
  by (simp add: utf8_first_def is_cont_def)

text \<open>
  C9. \<open>decode_stderr\<close> decodes with \<open>errors="replace"\<close>, and UTF-8 decoding with that error
  handler returns a string for every byte sequence. So the branch that decodes with
  gb18030 is never taken: the result does not depend on the gb18030 decoder at all, and
  the two bytes \<open>D6 D0\<close> (not valid UTF-8; the character U+4E2D in gb18030) are decoded to
  two replacement characters U+FFFD.
\<close>

theorem decode_stderr_never_falls_back:
  "decode_stderr (L\<lparr>gb18030 := g\<rparr>) err_bytes = decode_stderr L err_bytes
   \<and> decode_stderr L [214, 208] = [65533, 65533]"
proof
  obtain s where "utf8_decode Replace err_bytes = Inr s"
    using utf8_replace_total by blast
  then show "decode_stderr (L\<lparr>gb18030 := g\<rparr>) err_bytes = decode_stderr L err_bytes"
    by (simp add: decode_stderr_def)
next
  show "decode_stderr L [214, 208] = [65533, 65533]"
    by (simp add: decode_stderr_def utf8_replace_D6D0 strip_def lstrip_def rstrip_def isspace_def
        del: utf8_decode.simps)
qed

lemma utf8_strict_FF: "utf8_decode Strict [255] = Inl UnicodeDecodeError"
  by (simp add: utf8_first_def)

lemma utf8_sig_FF: "utf8_sig_decode [255] = Inl UnicodeDecodeError"
  by (simp add: utf8_sig_decode_def utf8_first_def)

lemma utf8_strict_D6D0: "utf8_decode Strict [214, 208] = Inl UnicodeDecodeError"
  by (simp add: utf8_first_def is_cont_def)

lemma utf8_sig_D6D0: "utf8_sig_decode [214, 208] = Inl UnicodeDecodeError"
  by (simp add: utf8_sig_decode_def utf8_first_def is_cont_def)

text \<open>
  C1. \<open>convert_one_file\<close> calls \<open>ensure_utf8_markdown\<close> before its \<open>try\<close> statement, and
  that function guards only the read. On any machine where the source file holds the
  single byte \<open>FF\<close> (valid in neither UTF-8 nor gb18030) the \<open>UnicodeDecodeError\<close> of the
  last decoding attempt leaves \<open>convert_one_file\<close>; and where the source holds the bytes
  \<open>D6 D0\<close> and the temporary copy cannot be written, the \<open>OSError\<close> of \<open>write_text\<close> does.
\<close>

theorem convert_one_file_raises:
  "fst (convert_one_file
          (os\<lparr>read_bytes := \<lambda>p w. Some [255],
              lib := (lib os)\<lparr>gb18030 := \<lambda>m raw. Inl UnicodeDecodeError\<rparr>\<rparr>)
          keep md_path css_uris w) = Inl UnicodeDecodeError
   \<and> fst (convert_one_file
          (os\<lparr>read_bytes := \<lambda>p w. Some [214, 208],
              lib := (lib os)\<lparr>gb18030 := \<lambda>m raw. Inr [20013]\<rparr>,
              write_text := \<lambda>p s w. (False, w)\<rparr>)
          keep md_path css_uris w) = Inl OSError"
  by (simp add: convert_one_file_def ensure_utf8_markdown_def Let_def
      utf8_strict_FF utf8_sig_FF utf8_strict_D6D0 utf8_sig_D6D0 del: utf8_decode.simps)

section \<open>Properties of the \<open>srcset\<close> rewriting\<close>








subsection \<open>Splitting and joining\<close>




















subsection \<open>The loop over the entries\<close>








subsection \<open>The locators of the small environment are clean\<close>








subsection \<open>A concrete value\<close>








section \<open>Properties of the Rewriter\<close>







section \<open>Properties of the Sanitizer\<close>












section \<open>Properties of the cleanup\<close>

lemma cleanup_artifacts_step:
  "cleanup_artifacts os (p # ps) (w, tr) =
     (if fs_is_file os w p = Some True then
        (case unlink os p w of (ok, w') \<Rightarrow> cleanup_artifacts os ps (w', tr @ [Unlink p ok]))
      else if fs_is_file os w p = Some False \<and> fs_is_dir os w p = Some True then
        (case rmdir os p w of (ok, w') \<Rightarrow> cleanup_artifacts os ps (w', tr @ [Rmdir p ok]))
      else cleanup_artifacts os ps (w, tr))"
  by (simp split: option.splits bool.splits)

lemma cleanup_artifacts_trace:
  "cleanup_artifacts os ps (w, tr)
     = (fst (cleanup_artifacts os ps (w, [])), tr @ snd (cleanup_artifacts os ps (w, [])))"
proof (induction ps arbitrary: w tr)
  case Nil
  then show ?case by simp
next
  case (Cons p ps)
  consider (is_f) "fs_is_file os w p = Some True"
    | (is_d) "fs_is_file os w p \<noteq> Some True" "fs_is_file os w p = Some False \<and> fs_is_dir os w p = Some True"
    | (other) "fs_is_file os w p \<noteq> Some True" "\<not> (fs_is_file os w p = Some False \<and> fs_is_dir os w p = Some True)"
    by blast
  then show ?case
  proof cases
    case is_f
    obtain ok w' where u: "unlink os p w = (ok, w')" by (cases "unlink os p w")
    show ?thesis
      unfolding cleanup_artifacts_step
      using is_f u Cons.IH [of w' "tr @ [Unlink p ok]"] Cons.IH [of w' "[Unlink p ok]"]
      by simp
  next
    case is_d
    obtain ok w' where u: "rmdir os p w = (ok, w')" by (cases "rmdir os p w")
    show ?thesis
      unfolding cleanup_artifacts_step
      using is_d u Cons.IH [of w' "tr @ [Rmdir p ok]"] Cons.IH [of w' "[Rmdir p ok]"]
      by simp
  next
    case other
    have e: "cleanup_artifacts os (p # ps) (w, xs) = cleanup_artifacts os ps (w, xs)" for xs
      by (simp only: cleanup_artifacts_step other if_False)
    show ?thesis
      unfolding e using Cons.IH [of w tr] by simp
  qed
qed

lemma cleanup_artifacts_append:
  "cleanup_artifacts os (xs @ ys) st = cleanup_artifacts os ys (cleanup_artifacts os xs st)"
proof (induction xs arbitrary: st)
  case Nil
  then show ?case by simp
next
  case (Cons p xs)
  obtain w tr where st: "st = (w, tr)" by (cases st)
  show ?case
    unfolding st by (simp add: Cons.IH split: prod.splits option.splits bool.splits)
qed

lemma cleanup_artifacts_paths:
  "\<exists>qs. map deletion_target (snd (cleanup_artifacts os ps (w, []))) = map Some qs
        \<and> set qs \<subseteq> set ps
        \<and> (distinct ps \<longrightarrow> distinct qs)
        \<and> (sorted_wrt R ps \<longrightarrow> sorted_wrt R qs)"
proof (induction ps arbitrary: w)
  case Nil
  then show ?case by simp
next
  case (Cons p ps)
  have step: "\<exists>qs. map deletion_target (e # snd (cleanup_artifacts os ps (w', []))) = map Some qs
        \<and> set qs \<subseteq> set (p # ps)
        \<and> (distinct (p # ps) \<longrightarrow> distinct qs)
        \<and> (sorted_wrt R (p # ps) \<longrightarrow> sorted_wrt R qs)"
    if "deletion_target e = Some p" for e w'
  proof -
    from Cons.IH [of w'] obtain qs where
      qs: "map deletion_target (snd (cleanup_artifacts os ps (w', []))) = map Some qs"
        "set qs \<subseteq> set ps" "distinct ps \<longrightarrow> distinct qs" "sorted_wrt R ps \<longrightarrow> sorted_wrt R qs"
      by blast
    show ?thesis
      by (rule exI [of _ "p # qs"]) (use qs that in auto)
  qed
  consider (is_f) "fs_is_file os w p = Some True"
    | (is_d) "fs_is_file os w p \<noteq> Some True" "fs_is_file os w p = Some False \<and> fs_is_dir os w p = Some True"
    | (other) "fs_is_file os w p \<noteq> Some True" "\<not> (fs_is_file os w p = Some False \<and> fs_is_dir os w p = Some True)"
    by blast
  then show ?case
  proof cases
    case is_f
    obtain ok w' where u: "unlink os p w = (ok, w')" by (cases "unlink os p w")
    have "snd (cleanup_artifacts os (p # ps) (w, []))
            = Unlink p ok # snd (cleanup_artifacts os ps (w', []))"
      unfolding cleanup_artifacts_step
      using is_f u cleanup_artifacts_trace [of os ps w' "[Unlink p ok]"] by simp
    with step [of "Unlink p ok" w'] show ?thesis by simp
  next
    case is_d
    obtain ok w' where u: "rmdir os p w = (ok, w')" by (cases "rmdir os p w")
    have "snd (cleanup_artifacts os (p # ps) (w, []))
            = Rmdir p ok # snd (cleanup_artifacts os ps (w', []))"
      unfolding cleanup_artifacts_step
      using is_d u cleanup_artifacts_trace [of os ps w' "[Rmdir p ok]"] by simp
    with step [of "Rmdir p ok" w'] show ?thesis by simp
  next
    case other
    from Cons.IH [of w] obtain qs where
      qs: "map deletion_target (snd (cleanup_artifacts os ps (w, []))) = map Some qs"
        "set qs \<subseteq> set ps" "distinct ps \<longrightarrow> distinct qs" "sorted_wrt R ps \<longrightarrow> sorted_wrt R qs"
      by blast
    have e: "cleanup_artifacts os (p # ps) (w, []) = cleanup_artifacts os ps (w, [])"
      by (simp only: cleanup_artifacts_step other if_False)
    show ?thesis
      unfolding e by (rule exI [of _ qs]) (use qs in auto)
  qed
qed

lemma cleanup_artifacts_examines:
  assumes "cleanup_artifacts os pre (w, tr) = (wp, trp)"
  shows "(fs_is_file os wp p = Some True \<longrightarrow>
            (\<exists>ok. Unlink p ok \<in> set (snd (cleanup_artifacts os (pre @ p # post) (w, tr)))))
       \<and> (fs_is_file os wp p = Some False \<and> fs_is_dir os wp p = Some True \<longrightarrow>
            (\<exists>ok. Rmdir p ok \<in> set (snd (cleanup_artifacts os (pre @ p # post) (w, tr)))))"
proof -
  have e: "cleanup_artifacts os (pre @ p # post) (w, tr) = cleanup_artifacts os (p # post) (wp, trp)"
    by (simp only: cleanup_artifacts_append assms)
  have a: "\<exists>ok. Unlink p ok \<in> set (snd (cleanup_artifacts os (pre @ p # post) (w, tr)))"
    if f: "fs_is_file os wp p = Some True"
  proof -
    obtain ok w' where u: "unlink os p wp = (ok, w')" by (cases "unlink os p wp")
    have "snd (cleanup_artifacts os (p # post) (wp, trp))
            = (trp @ [Unlink p ok]) @ snd (cleanup_artifacts os post (w', []))"
      unfolding cleanup_artifacts_step
      using f u cleanup_artifacts_trace [of os post w' "trp @ [Unlink p ok]"] by simp
    then show ?thesis unfolding e by auto
  qed
  have b: "\<exists>ok. Rmdir p ok \<in> set (snd (cleanup_artifacts os (pre @ p # post) (w, tr)))"
    if f: "fs_is_file os wp p = Some False \<and> fs_is_dir os wp p = Some True"
  proof -
    obtain ok w' where u: "rmdir os p wp = (ok, w')" by (cases "rmdir os p wp")
    have "snd (cleanup_artifacts os (p # post) (wp, trp))
            = (trp @ [Rmdir p ok]) @ snd (cleanup_artifacts os post (w', []))"
      unfolding cleanup_artifacts_step
      using f u cleanup_artifacts_trace [of os post w' "trp @ [Rmdir p ok]"] by simp
    then show ?thesis unfolding e by auto
  qed
  from a b show ?thesis by blast
qed

text \<open>
  With \<open>keep_html_on_success\<close> set, the only deletion the \<open>finally\<close> block can make is that of
  the re-encoded Markdown.
\<close>

lemma remove_temp_files_keep:
  "\<exists>ok w' del. remove_temp_files os True html_path md_tmp_path (w, tr) = (ok, w', tr @ del)
      \<and> (del = [] \<or> (\<exists>r. del = [Unlink md_tmp_path r]))"
proof -
  obtain r wr where u: "unlink os md_tmp_path w = (r, wr)" by (cases "unlink os md_tmp_path w")
  have "remove_temp_files os True html_path md_tmp_path (w, tr) = (False, w, tr @ [])
      \<or> remove_temp_files os True html_path md_tmp_path (w, tr) = (True, w, tr @ [])
      \<or> remove_temp_files os True html_path md_tmp_path (w, tr) = (r, wr, tr @ [Unlink md_tmp_path r])"
    using u by (simp add: remove_temp_files_def split: option.splits bool.splits)
  then show ?thesis by blast
qed

lemma cleanup_keep:
  "\<exists>w' del. cleanup os True True html_path md_tmp_path (arts, w, tr) = (w', tr @ del)
      \<and> (del = [] \<or> (\<exists>r. del = [Unlink md_tmp_path r]))"
proof -
  from remove_temp_files_keep [of os html_path md_tmp_path w tr] obtain ok w' del where
    r: "remove_temp_files os True html_path md_tmp_path (w, tr) = (ok, w', tr @ del)"
       "del = [] \<or> (\<exists>r. del = [Unlink md_tmp_path r])"
    by blast
  have "cleanup os True True html_path md_tmp_path (arts, w, tr) = (w', tr @ del)"
    using r(1) by (cases ok) (simp_all add: cleanup_def)
  with r(2) show ?thesis by blast
qed

lemma longest_first_order:
  assumes "sorted_wrt (\<lambda>a b. length b \<le> length a) qs"
    and "d \<in> set qs" and "p \<in> set qs" and "length d < length p"
  shows "\<exists>xs ys zs. qs = xs @ p # ys @ d # zs"
proof -
  from assms(3) obtain xs rest where s: "qs = xs @ p # rest"
    by (meson split_list)
  have "d \<notin> set xs"
  proof
    assume "d \<in> set xs"
    with assms(1) s have "length p \<le> length d"
      by (auto simp: sorted_wrt_append)
    with assms(4) show False by simp
  qed
  moreover have "d \<noteq> p" using assms(4) by auto
  ultimately have "d \<in> set rest" using assms(2) s by auto
  then obtain ys zs where "rest = ys @ d # zs" by (meson split_list)
  with s show ?thesis by blast
qed

lemma artifact_order_props:
  assumes "set (set_order L arts) = set arts" and "distinct (set_order L arts)"
  shows "set (artifact_order L arts) = set arts"
    and "distinct (artifact_order L arts)"
    and "sorted_wrt (\<lambda>a b. length b \<le> length a) (artifact_order L arts)"
proof -
  show "set (artifact_order L arts) = set arts"
    by (simp add: artifact_order_def assms)
  show "distinct (artifact_order L arts)"
    by (simp add: artifact_order_def assms)
  have "sorted (map (\<lambda>p. - int (length p)) (artifact_order L arts))"
    unfolding artifact_order_def by (rule sorted_sort_key)
  then show "sorted_wrt (\<lambda>a b. length b \<le> length a) (artifact_order L arts)"
    by (simp add: sorted_map)
qed

text \<open>
  A machine after a successful job: the temporary HTML, one converted image in the scratch
  directory, and the artifact list the Transcoder left.
\<close>

definition c8_md :: path where
  "c8_md = ascii ''/doc/t.__pandoc_tmp__.md''"

definition c8_dir :: path where
  "c8_dir = ascii ''/doc/.__wkhtml_img_tmp__''"

definition c8_png :: path where
  "c8_png = ascii ''/doc/.__wkhtml_img_tmp__/a.png''"

definition sim_c8 :: sim where
  "sim_c8 = \<lparr>files = [(t_html, ascii ''<p>x</p>''), (c8_png, ascii ''PNG'')],
             dirs = [ascii ''/doc'', c8_dir], locked = [], script = []\<rparr>"

lemmas c8_eval =
  cleanup_def remove_temp_files_def artifact_order_def sim_c8_def c8_md_def c8_dir_def
  c8_png_def t_html_def sim_eval

text \<open>
  C8 as stated fails: with \<open>keep_html_on_success\<close> set, a successful job deletes no tracked
  artifact.
\<close>

theorem cleanup_keeps_artifacts_in_keep_mode:
  "c8_png \<in> set [c8_png, c8_dir]
   \<and> fs_is_file sim_os sim_c8 c8_png = Some True
   \<and> cleanup sim_os True True t_html c8_md ([c8_png, c8_dir], sim_c8, []) = (sim_c8, [])"
  by (simp add: c8_eval)

text \<open>
  C8 (amended). On success, with \<open>keep_html_on_success\<close> off and once the temporary HTML
  and the re-encoded Markdown have been looked up and removed without an \<open>OSError\<close>, the
  \<open>finally\<close> block makes its deletion calls on tracked artifacts only, at most one per
  artifact, longest path first; so a path is handled before every path that is a proper
  prefix of it, a file before the directory that contains it. Every tracked artifact gets
  its turn, whatever the outcome of the earlier calls: what \<open>is_file\<close> then reports as a
  file is unlinked, what \<open>is_file\<close> reports not to be a file and \<open>is_dir\<close> reports as a
  directory is removed with \<open>rmdir\<close>, which the system refuses on a directory that is not
  empty. (Provided \<open>set(temp_artifacts)\<close> is iterated without repetition and without loss.)
  With \<open>keep_html_on_success\<close> on, the block makes no deletion call on a tracked artifact:
  the only deletion it can make is that of the re-encoded Markdown.
\<close>

theorem cleanup_deletes_artifacts_longest_first:
  assumes so: "set (set_order (lib os) arts) = set arts" "distinct (set_order (lib os) arts)"
    and rm: "remove_temp_files os False html_path md_tmp_path (w, tr) = (True, w2, tr2)"
  shows "(\<exists>w' del qs.
      cleanup os False True html_path md_tmp_path (arts, w, tr) = (w', tr2 @ del)
    \<and> map deletion_target del = map Some qs
    \<and> set qs \<subseteq> set arts \<and> distinct qs
    \<and> sorted_wrt (\<lambda>a b. length b \<le> length a) qs
    \<and> (\<forall>d rest. rest \<noteq> [] \<and> d \<in> set qs \<and> d @ rest \<in> set qs
          \<longrightarrow> (\<exists>xs ys zs. qs = xs @ (d @ rest) # ys @ d # zs))
    \<and> (\<forall>p \<in> set arts. \<exists>pre post wp trp.
          artifact_order (lib os) arts = pre @ p # post
        \<and> cleanup_artifacts os pre (w2, tr2) = (wp, trp)
        \<and> (fs_is_file os wp p = Some True \<longrightarrow> (\<exists>ok. Unlink p ok \<in> set del))
        \<and> (fs_is_file os wp p = Some False \<and> fs_is_dir os wp p = Some True
             \<longrightarrow> (\<exists>ok. Rmdir p ok \<in> set del))))
    \<and> (\<exists>w' del.
      cleanup os True True html_path md_tmp_path (arts, w, tr) = (w', tr @ del)
    \<and> (del = [] \<or> (\<exists>ok. del = [Unlink md_tmp_path ok])))"
proof -
  let ?ord = "artifact_order (lib os) arts"
  let ?del = "snd (cleanup_artifacts os ?ord (w2, []))"
  let ?w' = "fst (cleanup_artifacts os ?ord (w2, []))"
  note ord = artifact_order_props [OF so]
  have c: "cleanup os False True html_path md_tmp_path (arts, w, tr) = (?w', tr2 @ ?del)"
    using rm cleanup_artifacts_trace [of os ?ord w2 tr2] by (simp add: cleanup_def)
  obtain qs where qs: "map deletion_target ?del = map Some qs" "set qs \<subseteq> set ?ord"
      "distinct qs" "sorted_wrt (\<lambda>a b. length b \<le> length a) qs"
    using cleanup_artifacts_paths [of os ?ord w2 "\<lambda>a b. length b \<le> length a"] ord by blast
  have before: "\<forall>d rest. rest \<noteq> [] \<and> d \<in> set qs \<and> d @ rest \<in> set qs
          \<longrightarrow> (\<exists>xs ys zs. qs = xs @ (d @ rest) # ys @ d # zs)"
  proof (intro allI impI)
    fix d rest :: path
    assume a: "rest \<noteq> [] \<and> d \<in> set qs \<and> d @ rest \<in> set qs"
    then have "length d < length (d @ rest)" by simp
    with a qs(4) show "\<exists>xs ys zs. qs = xs @ (d @ rest) # ys @ d # zs"
      by (intro longest_first_order) auto
  qed
  have each: "\<forall>p \<in> set arts. \<exists>pre post wp trp.
          ?ord = pre @ p # post
        \<and> cleanup_artifacts os pre (w2, tr2) = (wp, trp)
        \<and> (fs_is_file os wp p = Some True \<longrightarrow> (\<exists>ok. Unlink p ok \<in> set ?del))
        \<and> (fs_is_file os wp p = Some False \<and> fs_is_dir os wp p = Some True
             \<longrightarrow> (\<exists>ok. Rmdir p ok \<in> set ?del))"
  proof
    fix p assume "p \<in> set arts"
    then have "p \<in> set ?ord" using ord(1) by simp
    then obtain pre post where sp: "?ord = pre @ p # post" by (meson split_list)
    obtain wp trp where pr: "cleanup_artifacts os pre (w2, tr2) = (wp, trp)"
      by (cases "cleanup_artifacts os pre (w2, tr2)")
    have pr0: "cleanup_artifacts os pre (w2, []) = (wp, snd (cleanup_artifacts os pre (w2, [])))"
      using cleanup_artifacts_trace [of os pre w2 tr2] pr
      by (cases "cleanup_artifacts os pre (w2, [])") simp
    from cleanup_artifacts_examines [OF pr0, of p post]
    have "(fs_is_file os wp p = Some True \<longrightarrow> (\<exists>ok. Unlink p ok \<in> set ?del))
        \<and> (fs_is_file os wp p = Some False \<and> fs_is_dir os wp p = Some True
             \<longrightarrow> (\<exists>ok. Rmdir p ok \<in> set ?del))"
      unfolding sp [symmetric] .
    with sp pr show "\<exists>pre post wp trp.
          ?ord = pre @ p # post
        \<and> cleanup_artifacts os pre (w2, tr2) = (wp, trp)
        \<and> (fs_is_file os wp p = Some True \<longrightarrow> (\<exists>ok. Unlink p ok \<in> set ?del))
        \<and> (fs_is_file os wp p = Some False \<and> fs_is_dir os wp p = Some True
             \<longrightarrow> (\<exists>ok. Rmdir p ok \<in> set ?del))"
      by blast
  qed
  have first: "\<exists>w' del qs.
      cleanup os False True html_path md_tmp_path (arts, w, tr) = (w', tr2 @ del)
    \<and> map deletion_target del = map Some qs
    \<and> set qs \<subseteq> set arts \<and> distinct qs
    \<and> sorted_wrt (\<lambda>a b. length b \<le> length a) qs
    \<and> (\<forall>d rest. rest \<noteq> [] \<and> d \<in> set qs \<and> d @ rest \<in> set qs
          \<longrightarrow> (\<exists>xs ys zs. qs = xs @ (d @ rest) # ys @ d # zs))
    \<and> (\<forall>p \<in> set arts. \<exists>pre post wp trp.
          artifact_order (lib os) arts = pre @ p # post
        \<and> cleanup_artifacts os pre (w2, tr2) = (wp, trp)
        \<and> (fs_is_file os wp p = Some True \<longrightarrow> (\<exists>ok. Unlink p ok \<in> set del))
        \<and> (fs_is_file os wp p = Some False \<and> fs_is_dir os wp p = Some True
             \<longrightarrow> (\<exists>ok. Rmdir p ok \<in> set del)))"
    using c qs ord(1) before each by blast
  from first cleanup_keep [of os html_path md_tmp_path arts w tr] show ?thesis
    by (rule conjI)
qed

theorem cleanup_deletes_artifacts_longest_first_witness:
  "set (set_order (lib sim_os) [c8_dir, c8_png, c8_png]) = set [c8_dir, c8_png, c8_png]
   \<and> distinct (set_order (lib sim_os) [c8_dir, c8_png, c8_png])
   \<and> remove_temp_files sim_os False t_html c8_md (sim_c8, [])
       = (True, sim_c8\<lparr>files := [(c8_png, ascii ''PNG'')]\<rparr>, [Unlink t_html True])
   \<and> (\<exists>w' del qs.
         cleanup sim_os False True t_html c8_md ([c8_dir, c8_png, c8_png], sim_c8, [])
           = (w', [Unlink t_html True] @ del)
       \<and> map deletion_target del = map Some qs
       \<and> set qs \<subseteq> set [c8_dir, c8_png, c8_png] \<and> distinct qs
       \<and> sorted_wrt (\<lambda>a b. length b \<le> length a) qs)
   \<and> cleanup sim_os False True t_html c8_md ([c8_dir, c8_png, c8_png], sim_c8, [])
       = (sim_c8\<lparr>files := [], dirs := [ascii ''/doc'']\<rparr>,
          [Unlink t_html True, Unlink c8_png True, Rmdir c8_dir True])"
proof -
  have h1: "set (set_order (lib sim_os) [c8_dir, c8_png, c8_png]) = set [c8_dir, c8_png, c8_png]"
    by (simp add: sim_os_def sim_lib_def)
  have h2: "distinct (set_order (lib sim_os) [c8_dir, c8_png, c8_png])"
    by (simp add: sim_os_def sim_lib_def)
  have h3: "remove_temp_files sim_os False t_html c8_md (sim_c8, [])
       = (True, sim_c8\<lparr>files := [(c8_png, ascii ''PNG'')]\<rparr>, [Unlink t_html True])"
    by (simp add: c8_eval)
  have e: "cleanup sim_os False True t_html c8_md ([c8_dir, c8_png, c8_png], sim_c8, [])
       = (sim_c8\<lparr>files := [], dirs := [ascii ''/doc'']\<rparr>,
          [Unlink t_html True, Unlink c8_png True, Rmdir c8_dir True])"
    by (simp add: c8_eval)
  from cleanup_deletes_artifacts_longest_first [OF h1 h2 h3, THEN conjunct1]
  have "\<exists>w' del qs.
         cleanup sim_os False True t_html c8_md ([c8_dir, c8_png, c8_png], sim_c8, [])
           = (w', [Unlink t_html True] @ del)
       \<and> map deletion_target del = map Some qs
       \<and> set qs \<subseteq> set [c8_dir, c8_png, c8_png] \<and> distinct qs
       \<and> sorted_wrt (\<lambda>a b. length b \<le> length a) qs"
    by blast
  with h1 h2 h3 e show ?thesis by blast
qed

section \<open>Properties of the retry without stylesheets\<close>

lemma renderer_runs_append [simp]:
  "renderer_runs (a @ b) = renderer_runs a + renderer_runs b"
  by (simp add: renderer_runs_def)

lemma renderer_runs_single [simp]:
  "renderer_runs [e] = (if renderer_run e then 1 else 0)"
  by (simp add: renderer_runs_def)

lemma webp_step_runs:
  "renderer_runs (trace_of (snd (webp_step os out_dir uri (html, job)))) = renderer_runs (trace_of job)"
proof -
  obtain arts w tr where j: "job = (arts, w, tr)" by (cases job)
  show ?thesis
    unfolding j
    by (auto simp: webp_step_def trace_of_def Let_def
        split: option.splits bool.splits prod.splits sum.splits)
qed

lemma webp_loop_runs:
  "renderer_runs (trace_of (snd (webp_loop os out_dir uris st))) = renderer_runs (trace_of (snd st))"
proof (induction uris arbitrary: st)
  case Nil
  then show ?case by simp
next
  case (Cons uri uris)
  obtain html job where st: "st = (html, job)" by (cases st)
  show ?case
    using Cons.IH [of "webp_step os out_dir uri st"] webp_step_runs [of os out_dir uri html job]
    by (simp add: st)
qed

lemma convert_webp_runs:
  "renderer_runs (trace_of (snd (convert_webp_images_in_html os html html_dir job)))
     = renderer_runs (trace_of job)"
proof -
  obtain arts w tr where j: "job = (arts, w, tr)" by (cases job)
  define out_dir where "out_dir = path_join (lib os) html_dir (ascii ''.__wkhtml_img_tmp__'')"
  obtain ok w' where mk: "mkdir os out_dir w = (ok, w')" by (cases "mkdir os out_dir w")
  obtain h2 a2 w2 t2 where
    lp: "webp_loop os out_dir (dedupe (findall_webp html)) (html, arts, w', tr @ [Mkdir out_dir True])
          = (h2, a2, w2, t2)"
    by (metis prod_cases4)
  have "renderer_runs t2 = renderer_runs (tr @ [Mkdir out_dir True])"
    using webp_loop_runs [of os out_dir "dedupe (findall_webp html)"
        "(html, arts, w', tr @ [Mkdir out_dir True])"] lp
    by (simp add: trace_of_def)
  then have t2: "renderer_runs t2 = renderer_runs tr" by simp
  show ?thesis
    unfolding j convert_webp_images_in_html_def Let_def out_dir_def [symmetric]
    using mk lp t2 by (cases ok) (simp_all add: trace_of_def)
qed

lemma sanitize_runs:
  "renderer_runs (trace_of (snd (sanitize_html_for_wkhtmltopdf os keep html_path job)))
     = renderer_runs (trace_of job)"
proof -
  obtain arts w tr where j: "job = (arts, w, tr)" by (cases job)
  have cw: "convert_webp_images_in_html os h d (arts, w, tr) = (h2, a2, w2, t2)
            \<Longrightarrow> renderer_runs t2 = renderer_runs tr" for h d h2 a2 w2 t2
    using convert_webp_runs [of os h d "(arts, w, tr)"] by (simp add: trace_of_def)
  show ?thesis
    unfolding j sanitize_html_for_wkhtmltopdf_def Let_def
    by (auto simp: trace_of_def dest: cw split: sum.splits prod.splits option.splits)
qed

lemma run_command_trace:
  "run_command os cmd job = (r, job') \<Longrightarrow> trace_of job' = trace_of job @ [Run cmd r]"
  by (cases job) (auto simp: run_command_def trace_of_def split: prod.splits)

lemma pandoc_not_renderer: "\<not> renderer_run (Run (build_pandoc_cmd i h t c) r)"
  by (simp add: build_pandoc_cmd_def)

lemma wkhtml_is_renderer: "renderer_run (Run (build_wkhtmltopdf_cmd h p) r)"
  by (simp add: build_wkhtmltopdf_cmd_def)


text \<open>
  A job on the small machine: the source \<open>/doc/t.md\<close>, one stylesheet, a generated HTML
  without any attribute to rewrite, and the outcomes of the processes as a parameter.
\<close>

definition html_plain :: str where
  "html_plain = ascii ''<p>x</p>''"

definition c2_md :: path where
  "c2_md = ascii ''/doc/t.md''"

definition c2_css :: "str list" where
  "c2_css = [ascii ''file:///doc/a.css'']"

definition c2_err :: exn where
  "c2_err = CalledProcessError (ascii ''Exit with code 1'')"

definition c2_pandoc :: "str list" where
  "c2_pandoc = build_pandoc_cmd c2_md t_html (ascii ''t'') c2_css"

definition c2_pandoc_no_css :: "str list" where
  "c2_pandoc_no_css = build_pandoc_cmd c2_md t_html (ascii ''t'') []"

definition c2_wkhtml :: "str list" where
  "c2_wkhtml = build_wkhtmltopdf_cmd t_html (ascii ''/doc/t.pdf'')"

definition sim_c2 :: "exn option list \<Rightarrow> sim" where
  "sim_c2 outcomes = \<lparr>files = [(c2_md, ascii ''x''), (t_html, html_plain)], dirs = [ascii ''/doc''],
                       locked = [], script = outcomes\<rparr>"

lemma plain_substitutions: "fixed_substitutions html_plain = html_plain"
  by (simp add: fixed_substitutions_def html_plain_def py_replace_def Let_def)

lemma plain_rewrite: "rewrite_local_urls_to_file_uri E html_plain base_dir = Inr html_plain"
  by (simp add: html_plain_def rewriter_eval)

lemma plain_nowebp: "findall_webp html_plain = []"
  by (simp add: html_plain_def match_webp_def ci_eq_def)

lemma sim_sanitize_plain:
  assumes "map_of (files w) t_html = Some html_plain" and "t_html \<notin> set (locked w)"
  shows "sanitize_html_for_wkhtmltopdf sim_os False t_html (arts, w, tr)
           = (None, arts, w\<lparr>files := (t_html, html_plain) # files w\<rparr>,
              tr @ [WriteText t_html html_plain True])"
proof -
  have rd: "read_text sim_os t_html w = Inr html_plain"
    using assms(1) by (simp add: sim_os_def sim_abs_def refused_def name_too_long_def
        utf8_encode_def t_html_def)
  have wr: "write_text sim_os t_html html_plain w
              = (True, w\<lparr>files := (t_html, html_plain) # files w\<rparr>)"
    using assms(2) by (simp add: sim_os_def sim_abs_def refused_def name_too_long_def
        utf8_encode_def t_html_def)
  show ?thesis
    by (simp add: sanitize_html_for_wkhtmltopdf_def rd plain_substitutions plain_rewrite
        convert_webp_images_in_html_def plain_nowebp dedupe_def wr)
qed

lemma sim_run:
  "run_command sim_os cmd (arts, w, tr)
     = (case script w of
          [] \<Rightarrow> (None, arts, w, tr @ [Run cmd None])
        | r # rs \<Rightarrow> (r, arts, w\<lparr>script := rs\<rparr>, tr @ [Run cmd r]))"
  by (simp add: run_command_def sim_os_def split: list.splits)

lemma c2_paths:
  "path_stem (lib sim_os) c2_md = ascii ''t''"
  "with_suffix (lib sim_os) c2_md (ascii ''.pdf'') = ascii ''/doc/t.pdf''"
  "with_name (lib sim_os) c2_md (ascii ''t'' @ ascii ''.html'') = t_html"
  "with_name (lib sim_os) c2_md (ascii ''t'' @ ascii ''.__pandoc_tmp__.md'')
     = ascii ''/doc/t.__pandoc_tmp__.md''"
  by (simp_all add: sim_eval c2_md_def t_html_def)

lemma c2_ensure:
  "ensure_utf8_markdown sim_os c2_md p (sim_c2 outcomes, []) = (Inr c2_md, sim_c2 outcomes, [])"
  by (simp add: ensure_utf8_markdown_def sim_os_def sim_abs_def refused_def name_too_long_def
      utf8_encode_def sim_c2_def c2_md_def t_html_def
      utf8_first_def)

text \<open>
  C2 as stated fails. Where the converter succeeds, the renderer fails and the converter
  then fails on the regeneration without stylesheets, the job fails although the
  renderer was started once only: there is no second renderer invocation.
\<close>

theorem regeneration_failure_ends_job_without_retry:
  "c2_css \<noteq> []
   \<and> fst (convert_one_file sim_os False c2_md c2_css (sim_c2 [None, Some c2_err, Some c2_err]))
       = Inr False
   \<and> snd (snd (convert_one_file sim_os False c2_md c2_css (sim_c2 [None, Some c2_err, Some c2_err])))
       = [Run c2_pandoc None, WriteText t_html html_plain True, Run c2_wkhtml (Some c2_err),
          Run c2_pandoc_no_css (Some c2_err)]"
proof -
  have m: "map_of (files (sim_c2 o1)) t_html = Some html_plain" for o1
    by (simp add: sim_c2_def c2_md_def t_html_def)
  have l: "t_html \<notin> set (locked (sim_c2 o1))" for o1
    by (simp add: sim_c2_def)
  have s: "script (sim_c2 o1) = o1" for o1
    by (simp add: sim_c2_def)
  have t: "try_body sim_os False c2_pandoc c2_pandoc_no_css c2_wkhtml t_html c2_css
             ([], sim_c2 [None, Some c2_err, Some c2_err], [])
           = (Some c2_err, [],
              (sim_c2 [None, Some c2_err, Some c2_err])
                \<lparr>script := [Some c2_err, Some c2_err]\<rparr>
                \<lparr>files := (t_html, html_plain) # files (sim_c2 [None, Some c2_err, Some c2_err])\<rparr>
                \<lparr>script := [Some c2_err]\<rparr>\<lparr>script := []\<rparr>,
              [Run c2_pandoc None, WriteText t_html html_plain True, Run c2_wkhtml (Some c2_err),
               Run c2_pandoc_no_css (Some c2_err)])"
    by (simp add: try_body_def retry_without_css_def sim_run s sim_sanitize_plain m l
        c2_err_def c2_css_def)
  have c: "convert_one_file sim_os False c2_md c2_css (sim_c2 [None, Some c2_err, Some c2_err])
           = (Inr False,
              (sim_c2 [None, Some c2_err, Some c2_err])
                \<lparr>script := [Some c2_err, Some c2_err]\<rparr>
                \<lparr>files := (t_html, html_plain) # files (sim_c2 [None, Some c2_err, Some c2_err])\<rparr>
                \<lparr>script := [Some c2_err]\<rparr>\<lparr>script := []\<rparr>,
              [Run c2_pandoc None, WriteText t_html html_plain True, Run c2_wkhtml (Some c2_err),
               Run c2_pandoc_no_css (Some c2_err)])"
    unfolding convert_one_file_def Let_def c2_paths c2_ensure
    apply (simp only: prod.case sum.case)
    unfolding c2_pandoc_def [symmetric] c2_pandoc_no_css_def [symmetric] c2_wkhtml_def [symmetric] t
    by (simp add: cleanup_def c2_err_def)
  show ?thesis
    unfolding c by (simp add: c2_css_def)
qed


text \<open>
  C2 (amended). In a job whose renderer invocation fails with a non-zero exit status:
  with an empty stylesheet list the job fails at once, with no further call; with a
  non-empty list the converter is run again with an empty stylesheet list, and
  \<^item> if that run fails, the job fails and the renderer is not started again;
  \<^item> if the renewed sanitizing raises, the renderer is not started again either;
  \<^item> otherwise the renderer is started exactly one more time, and the outcome of that
    invocation is the outcome of the job.
\<close>

theorem renderer_retried_at_most_once:
  assumes p1: "run_command os (build_pandoc_cmd input html_path title css_uris) job = (None, job1)"
    and s1: "sanitize_html_for_wkhtmltopdf os keep html_path job1 = (None, job2)"
    and w1: "run_command os (build_wkhtmltopdf_cmd html_path pdf) job2
               = (Some (CalledProcessError err), job3)"
    and res: "try_body os keep (build_pandoc_cmd input html_path title css_uris)
                (build_pandoc_cmd input html_path title []) (build_wkhtmltopdf_cmd html_path pdf)
                html_path css_uris job = (raised, final)"
  shows "(css_uris = [] \<longrightarrow> raised = Some (CalledProcessError err) \<and> final = job3)
       \<and> (css_uris \<noteq> [] \<longrightarrow>
            (\<exists>r job4.
                run_command os (build_pandoc_cmd input html_path title []) job3 = (r, job4)
              \<and> (r \<noteq> None \<longrightarrow>
                    raised = r \<and> final = job4
                  \<and> renderer_runs (trace_of final) = renderer_runs (trace_of job3))
              \<and> (r = None \<longrightarrow>
                   (\<exists>r5 job5.
                       sanitize_html_for_wkhtmltopdf os keep html_path job4 = (r5, job5)
                     \<and> (r5 \<noteq> None \<longrightarrow>
                           raised = r5 \<and> final = job5
                         \<and> renderer_runs (trace_of final) = renderer_runs (trace_of job3))
                     \<and> (r5 = None \<longrightarrow>
                           run_command os (build_wkhtmltopdf_cmd html_path pdf) job5 = (raised, final)
                         \<and> renderer_runs (trace_of final)
                             = renderer_runs (trace_of job3) + 1)))))"
proof (cases "css_uris = []")
  case True
  with res p1 s1 w1 have "raised = Some (CalledProcessError err) \<and> final = job3"
    by (simp add: try_body_def)
  with True show ?thesis by blast
next
  case css: False
  let ?no_css = "build_pandoc_cmd input html_path title []"
  let ?wk = "build_wkhtmltopdf_cmd html_path pdf"
  have res': "retry_without_css os keep ?no_css ?wk html_path job3 = (raised, final)"
    using res p1 s1 w1 css by (simp add: try_body_def)
  obtain r job4 where r4: "run_command os ?no_css job3 = (r, job4)"
    by (cases "run_command os ?no_css job3")
  have t4: "renderer_runs (trace_of job4) = renderer_runs (trace_of job3)"
    using run_command_trace [OF r4] pandoc_not_renderer by simp
  obtain r5 job5 where r5: "sanitize_html_for_wkhtmltopdf os keep html_path job4 = (r5, job5)"
    by (cases "sanitize_html_for_wkhtmltopdf os keep html_path job4")
  have t5: "renderer_runs (trace_of job5) = renderer_runs (trace_of job3)"
    using sanitize_runs [of os keep html_path job4] r5 t4 by simp
  obtain r6 job6 where r6: "run_command os ?wk job5 = (r6, job6)"
    by (cases "run_command os ?wk job5")
  have t6: "renderer_runs (trace_of job6) = renderer_runs (trace_of job3) + 1"
    using run_command_trace [OF r6] wkhtml_is_renderer t5 by simp
  have A: "raised = r \<and> final = job4
        \<and> renderer_runs (trace_of final) = renderer_runs (trace_of job3)" if "r \<noteq> None"
    using that res' r4 t4 by (auto simp: retry_without_css_def)
  have B: "raised = r5 \<and> final = job5
        \<and> renderer_runs (trace_of final) = renderer_runs (trace_of job3)"
    if "r = None" "r5 \<noteq> None"
    using that res' r4 r5 t5 by (auto simp: retry_without_css_def)
  have C: "run_command os ?wk job5 = (raised, final)
        \<and> renderer_runs (trace_of final) = renderer_runs (trace_of job3) + 1"
    if "r = None" "r5 = None"
    using that res' r4 r5 r6 t6 by (simp add: retry_without_css_def)
  have inner: "\<exists>r5 job5.
             sanitize_html_for_wkhtmltopdf os keep html_path job4 = (r5, job5)
           \<and> (r5 \<noteq> None \<longrightarrow>
                 raised = r5 \<and> final = job5
               \<and> renderer_runs (trace_of final) = renderer_runs (trace_of job3))
           \<and> (r5 = None \<longrightarrow>
                 run_command os ?wk job5 = (raised, final)
               \<and> renderer_runs (trace_of final) = renderer_runs (trace_of job3) + 1)"
    if "r = None"
    using r5 B [OF that] C [OF that] by blast
  have "\<exists>r job4.
                run_command os ?no_css job3 = (r, job4)
              \<and> (r \<noteq> None \<longrightarrow>
                    raised = r \<and> final = job4
                  \<and> renderer_runs (trace_of final) = renderer_runs (trace_of job3))
              \<and> (r = None \<longrightarrow>
                   (\<exists>r5 job5.
                       sanitize_html_for_wkhtmltopdf os keep html_path job4 = (r5, job5)
                     \<and> (r5 \<noteq> None \<longrightarrow>
                           raised = r5 \<and> final = job5
                         \<and> renderer_runs (trace_of final) = renderer_runs (trace_of job3))
                     \<and> (r5 = None \<longrightarrow>
                           run_command os ?wk job5 = (raised, final)
                         \<and> renderer_runs (trace_of final)
                             = renderer_runs (trace_of job3) + 1)))"
    using r4 A inner by blast
  with css show ?thesis by blast
qed


theorem renderer_retried_at_most_once_witness:
  "\<exists>job1 job2 job3 raised final.
       run_command sim_os c2_pandoc ([], sim_c2 [None, Some c2_err, None, Some c2_err], [])
         = (None, job1)
     \<and> sanitize_html_for_wkhtmltopdf sim_os False t_html job1 = (None, job2)
     \<and> run_command sim_os c2_wkhtml job2 = (Some c2_err, job3)
     \<and> try_body sim_os False c2_pandoc c2_pandoc_no_css c2_wkhtml t_html c2_css
           ([], sim_c2 [None, Some c2_err, None, Some c2_err], []) = (raised, final)
     \<and> c2_css \<noteq> []
     \<and> raised = Some c2_err
     \<and> renderer_runs (trace_of job3) = 1
     \<and> renderer_runs (trace_of final) = renderer_runs (trace_of job3) + 1"
proof -
  define W0 where "W0 = sim_c2 [None, Some c2_err, None, Some c2_err]"
  define W1 where "W1 = W0\<lparr>script := [Some c2_err, None, Some c2_err]\<rparr>"
  define W2 where "W2 = W1\<lparr>files := (t_html, html_plain) # files W1\<rparr>"
  define W3 where "W3 = W2\<lparr>script := [None, Some c2_err]\<rparr>"
  define W4 where "W4 = W3\<lparr>script := [Some c2_err]\<rparr>"
  define W5 where "W5 = W4\<lparr>files := (t_html, html_plain) # files W4\<rparr>"
  define W6 where "W6 = W5\<lparr>script := []\<rparr>"
  define T1 where "T1 = [Run c2_pandoc None]"
  define T2 where "T2 = T1 @ [WriteText t_html html_plain True]"
  define T3 where "T3 = T2 @ [Run c2_wkhtml (Some c2_err)]"
  define T4 where "T4 = T3 @ [Run c2_pandoc_no_css None]"
  define T5 where "T5 = T4 @ [WriteText t_html html_plain True]"
  define T6 where "T6 = T5 @ [Run c2_wkhtml (Some c2_err)]"
  note W = W0_def W1_def W2_def W3_def W4_def W5_def W6_def sim_c2_def c2_md_def t_html_def
  have p1: "run_command sim_os c2_pandoc ([], W0, []) = (None, [], W1, T1)"
    by (simp add: sim_run W0_def W1_def T1_def sim_c2_def)
  have s1: "sanitize_html_for_wkhtmltopdf sim_os False t_html ([], W1, T1) = (None, [], W2, T2)"
    by (subst sim_sanitize_plain) (simp_all add: W T2_def)
  have w1: "run_command sim_os c2_wkhtml ([], W2, T2) = (Some c2_err, [], W3, T3)"
    by (simp add: sim_run W T3_def)
  have r4: "run_command sim_os c2_pandoc_no_css ([], W3, T3) = (None, [], W4, T4)"
    by (simp add: sim_run W T4_def)
  have r5: "sanitize_html_for_wkhtmltopdf sim_os False t_html ([], W4, T4) = (None, [], W5, T5)"
    by (subst sim_sanitize_plain) (simp_all add: W T5_def)
  have r6: "run_command sim_os c2_wkhtml ([], W5, T5) = (Some c2_err, [], W6, T6)"
    by (simp add: sim_run W T6_def)
  have css: "c2_css \<noteq> []" by (simp add: c2_css_def)
  have res: "try_body sim_os False c2_pandoc c2_pandoc_no_css c2_wkhtml t_html c2_css ([], W0, [])
             = (Some c2_err, [], W6, T6)"
    by (simp add: try_body_def retry_without_css_def p1 s1 w1 r4 r5 r6 css c2_err_def)
  have n3: "renderer_runs (trace_of ([], W3, T3)) = 1"
    by (simp add: trace_of_def T3_def T2_def T1_def c2_pandoc_def c2_wkhtml_def
        build_pandoc_cmd_def build_wkhtmltopdf_cmd_def renderer_runs_def)
  have "renderer_runs (trace_of ([], W6, T6)) = renderer_runs (trace_of ([], W3, T3)) + 1"
    using renderer_retried_at_most_once
      [of sim_os c2_md t_html "ascii ''t''" c2_css "([], W0, [])" "([], W1, T1)" False
          "([], W2, T2)" "ascii ''/doc/t.pdf''" "ascii ''Exit with code 1''" "([], W3, T3)"
          "Some c2_err" "([], W6, T6)"]
      p1 s1 w1 res css r4 r5
    unfolding c2_pandoc_def c2_pandoc_no_css_def c2_wkhtml_def c2_err_def
    by auto
  with p1 s1 w1 res css n3 show ?thesis
    unfolding W0_def by blast
qed

section \<open>Properties of the Transcoder\<close>

lemma env_at_fields [simp]:
  "urlsplit_path (env_at os w) = urlsplit_path (norm_env os)"
  "unquote (env_at os w) = unquote (norm_env os)"
  "path_resolve (env_at os w) = path_resolve (norm_env os)"
  "uri_tail (env_at os w) = uri_tail (norm_env os)"
  "is_file (env_at os w) = fs_is_file os w"
  by (simp_all add: env_at_def)

lemma as_uri_env_at [simp]: "as_uri (env_at os w) p = as_uri (norm_env os) p"
  by (simp add: as_uri_def)

text \<open>A step for a locator whose output already exists: no call, the locator is replaced.\<close>

lemma webp_step_reuse:
  assumes "webp_source os uri = Some f" and "fs_is_file os w f = Some True"
    and "fs_is_file os w (png_target os out_dir f) = Some True"
    and "path_resolve (norm_env os) (png_target os out_dir f) = Inr rp"
  shows "webp_step os out_dir uri (html, arts, w, tr)
           = (py_replace html uri (as_uri (norm_env os) rp),
              arts @ [png_target os out_dir f], w, tr)"
  using assms
  by (auto simp: webp_step_def webp_source_def png_target_def Let_def split: option.splits)

text \<open>A step whose conversion succeeds: one call, the output exists afterwards.\<close>

lemma webp_step_convert:
  assumes "webp_source os uri = Some f" and "fs_is_file os w f = Some True"
    and "fs_is_file os w (png_target os out_dir f) = Some False"
    and "image_convert os f (png_target os out_dir f) w = (True, w')"
    and "path_resolve (norm_env os) (png_target os out_dir f) = Inr rp"
  shows "webp_step os out_dir uri (html, arts, w, tr)
           = (py_replace html uri (as_uri (norm_env os) rp),
              arts @ [png_target os out_dir f], w',
              tr @ [ImageConvert f (png_target os out_dir f) True])"
  using assms
  by (auto simp: webp_step_def webp_source_def png_target_def Let_def split: option.splits)

lemma webp_step_keeps_files:
  assumes "codec_sane os" and "fs_is_file os w p = Some True"
    and "webp_step os out_dir uri (html, arts, w, tr) = (html', arts', w', tr')"
  shows "fs_is_file os w' p = Some True"
proof -
  have keep: "fs_is_file os w'' p = Some True"
    if "image_convert os src dst w = (ok, w'')" for src dst ok w''
    using assms(1,2) that unfolding codec_sane_def by blast
  show ?thesis
    using assms(3) assms(2) keep
    by (auto simp: webp_step_def Let_def
        split: option.splits bool.splits if_splits prod.splits sum.splits)
qed

lemma webp_loop_keeps_files:
  assumes "codec_sane os" and "fs_is_file os w p = Some True"
    and "webp_loop os out_dir uris (html, arts, w, tr) = (html', arts', w', tr')"
  shows "fs_is_file os w' p = Some True"
  using assms(2,3)
proof (induction uris arbitrary: html arts w tr)
  case Nil
  then show ?case by simp
next
  case (Cons uri uris)
  obtain h1 a1 w1 t1 where s: "webp_step os out_dir uri (html, arts, w, tr) = (h1, a1, w1, t1)"
    by (metis prod_cases4)
  have "fs_is_file os w1 p = Some True"
    by (rule webp_step_keeps_files [OF assms(1) Cons.prems(1) s])
  moreover have "webp_loop os out_dir uris (h1, a1, w1, t1) = (html', arts', w', tr')"
    using Cons.prems(2) s by simp
  ultimately show ?case by (rule Cons.IH)
qed

text \<open>
  A document with two locators of the same stem, \<open>file:///doc/a/pic.webp\<close> and
  \<open>file:///doc/b/pic.webp\<close>, on the small machine; the content of the first image is a
  parameter.
\<close>

definition c10_uri1 :: str where
  "c10_uri1 = ascii ''file:///doc/a/pic.webp''"

definition c10_uri2 :: str where
  "c10_uri2 = ascii ''file:///doc/b/pic.webp''"

definition c10_png_uri :: str where
  "c10_png_uri = ascii ''file:///doc/.__wkhtml_img_tmp__/pic.png''"

definition c10_png :: path where
  "c10_png = ascii ''/doc/.__wkhtml_img_tmp__/pic.png''"

definition html_c10 :: str where
  "html_c10 = c10_uri1 @ ascii '' '' @ c10_uri2"

definition sim_c10 :: "str \<Rightarrow> sim" where
  "sim_c10 first_image =
     \<lparr>files = [(ascii ''/doc/a/pic.webp'', first_image), (ascii ''/doc/b/pic.webp'', ascii ''RIFF'')],
      dirs = [ascii ''/doc''], locked = [], script = []\<rparr>"

lemmas c10_eval =
  c10_uri1_def c10_uri2_def c10_png_uri_def c10_png_def html_c10_def sim_c10_def c8_dir_def
  webp_step_def convert_webp_images_in_html_def dedupe_def match_webp_def ci_eq_def
  locator_char_def isspace_def lstrip_slash_def as_uri_def py_replace_def Let_def sim_eval

text \<open>
  C10 as stated fails. Where the first image exists but cannot be decoded (an empty
  file), its conversion raises and is skipped; the output name does not exist when the
  second locator is reached, so the second file is transcoded, and the first locator is
  left as it was.
\<close>

theorem corrupt_first_image_second_is_transcoded:
  "findall_webp html_c10 = [c10_uri1, c10_uri2]
   \<and> path_stem (lib sim_os) (ascii ''doc/a/pic.webp'') = path_stem (lib sim_os) (ascii ''doc/b/pic.webp'')
   \<and> fs_is_file sim_os (sim_c10 []) (ascii ''doc/a/pic.webp'') = Some True
   \<and> fs_is_file sim_os (sim_c10 []) (ascii ''doc/b/pic.webp'') = Some True
   \<and> convert_webp_images_in_html sim_os html_c10 (ascii ''/doc'') ([], sim_c10 [], [])
       = (c10_uri1 @ ascii '' '' @ c10_png_uri,
          [c10_png, c8_dir],
          (sim_c10 [])\<lparr>files := (c10_png, ascii ''PNG'') # files (sim_c10 []),
                        dirs := c8_dir # dirs (sim_c10 [])\<rparr>,
          [Mkdir c8_dir True,
           ImageConvert (ascii ''doc/a/pic.webp'') c10_png False,
           ImageConvert (ascii ''doc/b/pic.webp'') c10_png True])"
  by (simp add: c10_eval)


lemma sim_codec_sane: "codec_sane sim_os"
  unfolding codec_sane_def
  by (auto simp: sim_os_def refused_def split: option.splits list.splits if_splits)

definition c10_f1 :: path where
  "c10_f1 = ascii ''doc/a/pic.webp''"

definition c10_f2 :: path where
  "c10_f2 = ascii ''doc/b/pic.webp''"

definition sim_c10_after :: sim where
  "sim_c10_after =
     (sim_c10 (ascii ''RIFF''))\<lparr>files := (c10_png, ascii ''PNG'') # files (sim_c10 (ascii ''RIFF''))\<rparr>"

text \<open>
  C10 (amended). Two matched locators whose files have the same stem get the same output
  path. If, when the first one is reached, its file exists and its output either exists
  already or is produced by a conversion that succeeds, then the first locator is
  replaced by the locator of that output; and if the file of the second one exists when
  it is reached, the second step makes no call at all (its file is not transcoded) and
  replaces the second locator by the same locator. (Provided the image library creates
  what it saves and removes nothing, and the output path resolves.)
\<close>

theorem same_stem_reuses_first_conversion:
  assumes sane: "codec_sane os"
    and src1: "webp_source os uri1 = Some f1" and src2: "webp_source os uri2 = Some f2"
    and stem: "path_stem (lib os) f1 = path_stem (lib os) f2"
    and res: "path_resolve (norm_env os) (png_target os out_dir f1) = Inr rp"
    and st1: "webp_loop os out_dir before st = (h1, a1, w1, t1)"
    and file1: "fs_is_file os w1 f1 = Some True"
    and conv: "fs_is_file os w1 (png_target os out_dir f1) = Some True
               \<or> fs_is_file os w1 (png_target os out_dir f1) = Some False
                 \<and> fst (image_convert os f1 (png_target os out_dir f1) w1)"
    and st2: "webp_loop os out_dir between (webp_step os out_dir uri1 (h1, a1, w1, t1))
                = (h2, a2, w2, t2)"
    and file2: "fs_is_file os w2 f2 = Some True"
  shows "png_target os out_dir f2 = png_target os out_dir f1
       \<and> (\<exists>w1' t1'. webp_step os out_dir uri1 (h1, a1, w1, t1)
             = (py_replace h1 uri1 (as_uri (norm_env os) rp),
                a1 @ [png_target os out_dir f1], w1', t1'))
       \<and> webp_step os out_dir uri2 (h2, a2, w2, t2)
             = (py_replace h2 uri2 (as_uri (norm_env os) rp),
                a2 @ [png_target os out_dir f1], w2, t2)
       \<and> webp_loop os out_dir (before @ uri1 # between @ uri2 # after) st
             = webp_loop os out_dir after
                 (py_replace h2 uri2 (as_uri (norm_env os) rp),
                  a2 @ [png_target os out_dir f1], w2, t2)"
proof -
  let ?P = "png_target os out_dir f1"
  have same: "png_target os out_dir f2 = ?P"
    using stem by (simp add: png_target_def)
  have first: "\<exists>w1' t1'. webp_step os out_dir uri1 (h1, a1, w1, t1)
             = (py_replace h1 uri1 (as_uri (norm_env os) rp), a1 @ [?P], w1', t1')
             \<and> fs_is_file os w1' ?P = Some True"
  proof (cases "fs_is_file os w1 ?P = Some True")
    case True
    from webp_step_reuse [OF src1 file1 True res] True show ?thesis by blast
  next
    case False
    with conv have absent: "fs_is_file os w1 ?P = Some False" by blast
    from False conv obtain w' where ic: "image_convert os f1 ?P w1 = (True, w')"
      by (cases "image_convert os f1 ?P w1") auto
    then have "fs_is_file os w' ?P = Some True"
      using sane unfolding codec_sane_def by blast
    with webp_step_convert [OF src1 file1 absent ic res] show ?thesis by blast
  qed
  then obtain w1' t1' where
    s1: "webp_step os out_dir uri1 (h1, a1, w1, t1)
           = (py_replace h1 uri1 (as_uri (norm_env os) rp), a1 @ [?P], w1', t1')"
    and p1: "fs_is_file os w1' ?P = Some True"
    by blast
  have p2: "fs_is_file os w2 ?P = Some True"
    using webp_loop_keeps_files [OF sane p1] st2 s1 by simp
  have second: "webp_step os out_dir uri2 (h2, a2, w2, t2)
             = (py_replace h2 uri2 (as_uri (norm_env os) rp), a2 @ [?P], w2, t2)"
    using webp_step_reuse [OF src2 file2, of out_dir rp h2 a2 t2] p2 res same by simp
  have app: "webp_loop os out_dir (xs @ ys) s = webp_loop os out_dir ys (webp_loop os out_dir xs s)"
    for xs ys s
    by (induction xs arbitrary: s) simp_all
  have whole: "webp_loop os out_dir (before @ uri1 # between @ uri2 # after) st
             = webp_loop os out_dir after
                 (py_replace h2 uri2 (as_uri (norm_env os) rp), a2 @ [?P], w2, t2)"
    using st1 st2 second by (simp add: app)
  from same s1 second whole show ?thesis by blast
qed


theorem same_stem_reuses_first_conversion_witness:
  "codec_sane sim_os
   \<and> webp_source sim_os c10_uri1 = Some c10_f1
   \<and> webp_source sim_os c10_uri2 = Some c10_f2
   \<and> path_stem (lib sim_os) c10_f1 = path_stem (lib sim_os) c10_f2
   \<and> path_resolve (norm_env sim_os) (png_target sim_os c8_dir c10_f1) = Inr c10_png
   \<and> webp_loop sim_os c8_dir [] (html_c10, [], sim_c10 (ascii ''RIFF''), [])
       = (html_c10, [], sim_c10 (ascii ''RIFF''), [])
   \<and> fs_is_file sim_os (sim_c10 (ascii ''RIFF'')) c10_f1 = Some True
   \<and> fs_is_file sim_os (sim_c10 (ascii ''RIFF'')) (png_target sim_os c8_dir c10_f1) = Some False
   \<and> fst (image_convert sim_os c10_f1 (png_target sim_os c8_dir c10_f1) (sim_c10 (ascii ''RIFF'')))
   \<and> webp_loop sim_os c8_dir []
         (webp_step sim_os c8_dir c10_uri1 (html_c10, [], sim_c10 (ascii ''RIFF''), []))
       = (c10_png_uri @ ascii '' '' @ c10_uri2, [c10_png], sim_c10_after,
          [ImageConvert c10_f1 c10_png True])
   \<and> fs_is_file sim_os sim_c10_after c10_f2 = Some True
   \<and> webp_loop sim_os c8_dir [c10_uri1, c10_uri2] (html_c10, [], sim_c10 (ascii ''RIFF''), [])
       = (c10_png_uri @ ascii '' '' @ c10_png_uri, [c10_png, c10_png], sim_c10_after,
          [ImageConvert c10_f1 c10_png True])"
proof -
  note ev = c10_eval c10_f1_def c10_f2_def sim_c10_after_def webp_source_def png_target_def
  have h1: "webp_source sim_os c10_uri1 = Some c10_f1" by (simp add: ev)
  have h2: "webp_source sim_os c10_uri2 = Some c10_f2" by (simp add: ev)
  have h3: "path_stem (lib sim_os) c10_f1 = path_stem (lib sim_os) c10_f2" by (simp add: ev)
  have h4: "path_resolve (norm_env sim_os) (png_target sim_os c8_dir c10_f1) = Inr c10_png"
    by (simp add: ev)
  have h5: "webp_loop sim_os c8_dir [] (html_c10, [], sim_c10 (ascii ''RIFF''), [])
       = (html_c10, [], sim_c10 (ascii ''RIFF''), [])" by simp
  have h6: "fs_is_file sim_os (sim_c10 (ascii ''RIFF'')) c10_f1 = Some True" by (simp add: ev)
  have h6': "fs_is_file sim_os (sim_c10 (ascii ''RIFF'')) (png_target sim_os c8_dir c10_f1)
               = Some False"
    by (simp add: ev)
  have h7: "fst (image_convert sim_os c10_f1 (png_target sim_os c8_dir c10_f1) (sim_c10 (ascii ''RIFF'')))"
    by (simp add: ev)
  have h8: "webp_loop sim_os c8_dir []
         (webp_step sim_os c8_dir c10_uri1 (html_c10, [], sim_c10 (ascii ''RIFF''), []))
       = (c10_png_uri @ ascii '' '' @ c10_uri2, [c10_png], sim_c10_after,
          [ImageConvert c10_f1 c10_png True])"
    by (simp add: ev)
  have h9: "fs_is_file sim_os sim_c10_after c10_f2 = Some True" by (simp add: ev)
  have p: "png_target sim_os c8_dir c10_f1 = c10_png" by (simp add: ev)
  have u: "as_uri (norm_env sim_os) c10_png = c10_png_uri" by (simp add: ev)
  have r: "py_replace (c10_png_uri @ ascii '' '' @ c10_uri2) c10_uri2 c10_png_uri
             = c10_png_uri @ ascii '' '' @ c10_png_uri"
    by (simp add: ev)
  from same_stem_reuses_first_conversion
         [OF sim_codec_sane h1 h2 h3 h4 h5 h6 disjI2 [OF conjI [OF h6' h7]] h8 h9, of "[]"]
  have "webp_loop sim_os c8_dir ([] @ c10_uri1 # [] @ c10_uri2 # [])
          (html_c10, [], sim_c10 (ascii ''RIFF''), [])
        = webp_loop sim_os c8_dir []
            (py_replace (c10_png_uri @ ascii '' '' @ c10_uri2) c10_uri2
               (as_uri (norm_env sim_os) c10_png),
             [c10_png] @ [png_target sim_os c8_dir c10_f1], sim_c10_after,
             [ImageConvert c10_f1 c10_png True])"
    by blast
  then have "webp_loop sim_os c8_dir [c10_uri1, c10_uri2] (html_c10, [], sim_c10 (ascii ''RIFF''), [])
       = (c10_png_uri @ ascii '' '' @ c10_png_uri, [c10_png, c10_png], sim_c10_after,
          [ImageConvert c10_f1 c10_png True])"
    unfolding p u r by simp
  with sim_codec_sane h1 h2 h3 h4 h5 h6 h6' h7 h8 h9 show ?thesis by blast
qed

end
